theory Spec2Isabelle
  imports Complex_Main "HOL-Library.Multiset"
begin

section \<open>Data model\<close>

text \<open>
  The simulation of \<^verbatim>\<open>src/main.py\<close> is embedded function by function.
  Python integers are \<open>int\<close>; every other Python number (speeds, coordinates,
  wall-clock readings, ratios) is an exact \<open>real\<close>, so floating-point rounding is
  idealised away. Strings stay strings, \<open>None\<close> is \<open>None\<close>, and every place
  where the Python would raise is a branch returning \<open>Inl\<close> of the error.
\<close>

datatype error = TypeError | KeyError | ZeroDivisionError | IndexError

record TrafficLight =
  cycle :: int
  green_duration :: int
  yellow_duration :: int
  red_duration :: int
  state :: string
  timer :: int

record Vehicle =
  id_v :: int
  direction :: string
  max_speed :: real
  speed :: real
  acceleration :: real
  deceleration :: real
  position :: "(real \<times> real) option"
  path :: "(real \<times> real \<times> real) list"
  wait_time :: int
  entry_time :: real
  exit_time :: "real option"
  target_direction :: string

section \<open>TrafficLight\<close>

text \<open>Python's \<^verbatim>\<open>int(x)\<close> on a float truncates towards zero.\<close>

definition py_int :: "real \<Rightarrow> int" where
  "py_int x = (if 0 \<le> x then \<lfloor>x\<rfloor> else \<lceil>x\<rceil>)"

text \<open>\<^verbatim>\<open>TrafficLight.__init__(cycle, green_ratio)\<close>.\<close>

definition TrafficLight_init :: "int \<Rightarrow> real \<Rightarrow> TrafficLight" where
  "TrafficLight_init c green_ratio =
     (let g = py_int (of_int c * green_ratio) in
      \<lparr>cycle = c, green_duration = g, yellow_duration = 3,
       red_duration = c - g - 3, state = ''green'', timer = 0\<rparr>)"

text \<open>\<^verbatim>\<open>TrafficLight.update(step)\<close>; the argument is not read by the body.\<close>

definition TrafficLight_update :: "TrafficLight \<Rightarrow> int \<Rightarrow> TrafficLight" where
  "TrafficLight_update l step =
     (let l1 = l\<lparr>timer := timer l + 1\<rparr> in
      if state l1 = ''green'' \<and> timer l1 \<ge> green_duration l1
        then l1\<lparr>state := ''yellow'', timer := 0\<rparr>
      else if state l1 = ''yellow'' \<and> timer l1 \<ge> yellow_duration l1
        then l1\<lparr>state := ''red'', timer := 0\<rparr>
      else if state l1 = ''red'' \<and> timer l1 \<ge> red_duration l1
        then l1\<lparr>state := ''green'', timer := 0\<rparr>
      else l1)"

definition get_state :: "TrafficLight \<Rightarrow> string" where
  "get_state l = state l"

text \<open>
  The light after \<open>n\<close> successive calls \<^verbatim>\<open>update(k)\<close>, \<^verbatim>\<open>update(k + 1)\<close>, ...,
  as the driver issues them.
\<close>

fun TrafficLight_run :: "nat \<Rightarrow> TrafficLight \<Rightarrow> int \<Rightarrow> TrafficLight" where
  "TrafficLight_run 0 l k = l"
| "TrafficLight_run (Suc n) l k = TrafficLight_run n (TrafficLight_update l k) (k + 1)"

section \<open>Vehicle\<close>

text \<open>
  \<^verbatim>\<open>Vehicle._get_target_direction\<close>; \<open>r\<close> is the value drawn by
  \<^verbatim>\<open>np.random.random()\<close>.
\<close>

definition get_target_direction :: "real \<Rightarrow> string" where
  "get_target_direction r =
     (if r < 6 / 10 then ''straight'' else if r < 85 / 100 then ''left'' else ''right'')"

text \<open>
  \<^verbatim>\<open>Vehicle.__init__\<close>. The class counter \<^verbatim>\<open>Vehicle.next_id\<close> is passed in and
  returned incremented; \<open>now\<close> is the reading of \<^verbatim>\<open>time.time()\<close>, \<open>r\<close> the random
  draw of the target direction.
\<close>

definition Vehicle_init ::
  "int \<Rightarrow> string \<Rightarrow> real \<Rightarrow> real \<Rightarrow> real \<Rightarrow> real \<Rightarrow> real \<Rightarrow> Vehicle \<times> int" where
  "Vehicle_init next_id dir maxs acc dec now r =
     (\<lparr>id_v = next_id, direction = dir, max_speed = maxs, speed = 0,
       acceleration = acc, deceleration = dec, position = None, path = [],
       wait_time = 0, entry_time = now, exit_time = None,
       target_direction = get_target_direction r\<rparr>,
      next_id + 1)"

text \<open>Step 1 of \<^verbatim>\<open>update_speed\<close>: the speed after the acceleration attempt.\<close>

definition accelerated :: "Vehicle \<Rightarrow> real" where
  "accelerated v =
     (if speed v < max_speed v then min (speed v + acceleration v) (max_speed v)
      else speed v)"

text \<open>
  Step 2 of \<^verbatim>\<open>update_speed\<close>: the clamp behind the vehicle ahead, skipped when
  \<^verbatim>\<open>front_vehicle_dist\<close> is \<^verbatim>\<open>None\<close> or not below the safe distance.
\<close>

definition car_following :: "real \<Rightarrow> real \<Rightarrow> real option \<Rightarrow> real" where
  "car_following s safe_distance front_vehicle_dist =
     (case front_vehicle_dist of
        None \<Rightarrow> s
      | Some d \<Rightarrow> if d < safe_distance then max 0 (min s (d - 1)) else s)"

text \<open>
  Step 3 of \<^verbatim>\<open>update_speed\<close>: braking before a red or yellow light. The division
  raises when the deceleration is zero.
\<close>

definition light_braking :: "real \<Rightarrow> real \<Rightarrow> real \<Rightarrow> string \<Rightarrow> real \<Rightarrow> error + real" where
  "light_braking s dec safe_distance light_state light_dist =
     (if light_state = ''red'' \<or> light_state = ''yellow'' then
        if light_dist < safe_distance * 2 then
          if dec = 0 then Inl ZeroDivisionError
          else
            (let decel_distance = s ^ 2 / (2 * dec) in
             if light_dist < decel_distance then Inr (max 0 (s - dec)) else Inr s)
        else Inr s
      else Inr s)"

text \<open>
  Step 4 of \<^verbatim>\<open>update_speed\<close>; \<open>r\<close> is the value drawn by \<^verbatim>\<open>np.random.random()\<close>.
\<close>

definition random_slowdown :: "real \<Rightarrow> real \<Rightarrow> real" where
  "random_slowdown r s = (if r < 1 / 10 \<and> s > 0 then max 0 (s - 1) else s)"

text \<open>
  \<^verbatim>\<open>Vehicle.update_speed(front_vehicle_dist, light_state, light_dist)\<close>: the four
  steps in the order of the source. The safe distance is computed once, from the speed
  after step 1, and used by steps 2 and 3.
\<close>

definition update_speed ::
  "Vehicle \<Rightarrow> real option \<Rightarrow> string \<Rightarrow> real \<Rightarrow> real \<Rightarrow> error + Vehicle" where
  "update_speed v front_vehicle_dist light_state light_dist r =
     (let s1 = accelerated v;
          safe_distance = max 2 (s1 * (3 / 2));
          s2 = car_following s1 safe_distance front_vehicle_dist
      in case light_braking s2 (deceleration v) safe_distance light_state light_dist of
           Inl err \<Rightarrow> Inl err
         | Inr s3 \<Rightarrow> Inr (v\<lparr>speed := random_slowdown r s3\<rparr>))"

text \<open>\<^verbatim>\<open>Vehicle.move()\<close>; \<open>now\<close> is the reading of \<^verbatim>\<open>time.time()\<close>.\<close>

definition move :: "Vehicle \<Rightarrow> real \<Rightarrow> Vehicle" where
  "move v now =
     (let v1 =
        (case position v of
           None \<Rightarrow> v
         | Some (x, y) \<Rightarrow>
             (let v0 = v\<lparr>path := path v @ [(x, y, now)]\<rparr> in
              if direction v0 = ''north'' then v0\<lparr>position := Some (x, y + speed v0)\<rparr>
              else if direction v0 = ''south'' then v0\<lparr>position := Some (x, y - speed v0)\<rparr>
              else if direction v0 = ''east'' then v0\<lparr>position := Some (x + speed v0, y)\<rparr>
              else if direction v0 = ''west'' then v0\<lparr>position := Some (x - speed v0, y)\<rparr>
              else v0))
      in if speed v1 = 0 then v1\<lparr>wait_time := wait_time v1 + 1\<rparr> else v1)"

section \<open>Intersection\<close>

text \<open>
  The \<^verbatim>\<open>stats\<close> dictionary; \<^verbatim>\<open>queue_lengths\<close> is a \<^verbatim>\<open>defaultdict(list)\<close>,
  a total function whose value at an unused key is the empty list.
\<close>

record Stats =
  total_vehicles :: int
  avg_wait_time :: real
  avg_travel_time :: real
  throughput :: int
  queue_lengths :: "string \<Rightarrow> int list"

text \<open>
  The simulation state. \<open>next_id\<close> is the class attribute \<^verbatim>\<open>Vehicle.next_id\<close>,
  the only piece of state the simulation keeps outside the \<^verbatim>\<open>Intersection\<close> object.
\<close>

record Intersection =
  road_length :: int
  lane_width :: int
  spawn_rate :: real
  light_NS :: TrafficLight
  light_EW :: TrafficLight
  vehicles :: "Vehicle list"
  removed_vehicles :: "Vehicle list"
  stats :: Stats
  road_boundaries :: "string \<rightharpoonup> (int \<times> int)"
  intersection_center :: "int \<times> int"
  intersection_size :: real
  next_id :: int

text \<open>
  What one call of \<^verbatim>\<open>Intersection.update\<close> reads from outside the state: the random
  draws and the wall-clock readings, one input per call site. Inside the loop over the
  vehicles the inputs are indexed by the loop index.
\<close>

record env =
  r_spawn :: real
  k_choice :: nat
  u_uniform :: real
  t_entry :: real
  r_target :: real
  r_noise :: "nat \<Rightarrow> real"
  t_move :: "nat \<Rightarrow> real"
  t_exit :: "nat \<Rightarrow> real"

text \<open>
  \<^verbatim>\<open>Intersection.__init__(road_length, lane_width, spawn_rate)\<close>; \<open>nid\<close> is the
  value of \<^verbatim>\<open>Vehicle.next_id\<close> when the constructor runs.
\<close>

definition Intersection_init :: "int \<Rightarrow> int \<Rightarrow> real \<Rightarrow> int \<Rightarrow> Intersection" where
  "Intersection_init rl lw sr nid =
     (let b = (rl div 2 - lw div 2, rl div 2 + lw div 2) in
      \<lparr>road_length = rl, lane_width = lw, spawn_rate = sr,
       light_NS = (TrafficLight_init 60 (1 / 2))\<lparr>state := ''green''\<rparr>,
       light_EW = (TrafficLight_init 60 (1 / 2))\<lparr>state := ''red''\<rparr>,
       vehicles = [], removed_vehicles = [],
       stats = \<lparr>total_vehicles = 0, avg_wait_time = 0, avg_travel_time = 0,
                throughput = 0, queue_lengths = (\<lambda>d. [])\<rparr>,
       road_boundaries =
         [''north'' \<mapsto> b, ''south'' \<mapsto> b, ''east'' \<mapsto> b, ''west'' \<mapsto> b],
       intersection_center = (rl div 2, rl div 2),
       intersection_size = of_int lw * (3 / 2),
       next_id = nid\<rparr>)"

text \<open>
  \<^verbatim>\<open>Intersection.spawn_vehicle\<close>. \<^verbatim>\<open>np.random.choice\<close> returns the element at a
  drawn index of the four-element list; \<^verbatim>\<open>np.random.uniform(lo, hi)\<close> returns
  \<open>lo + (hi - lo) * u\<close> for a drawn \<open>u\<close>. The vehicle is built with the constructor's
  defaults 5, 1, 2.
\<close>

definition spawn_vehicle :: "Intersection \<Rightarrow> env \<Rightarrow> error + Intersection" where
  "spawn_vehicle s e =
     (if r_spawn e < spawn_rate s then
        (let dir = [''north'', ''south'', ''east'', ''west''] ! (k_choice e mod 4);
             key = (if dir = ''north'' then ''north'' else if dir = ''south'' then ''south''
                    else if dir = ''east'' then ''east'' else ''west'')
         in case road_boundaries s key of
              None \<Rightarrow> Inl KeyError
            | Some (lo, hi) \<Rightarrow>
                (let c = of_int lo + (of_int hi - of_int lo) * u_uniform e;
                     start_pos =
                       (if dir = ''north'' then (c, 0)
                        else if dir = ''south'' then (c, of_int (road_length s))
                        else if dir = ''east'' then (0, c)
                        else (of_int (road_length s), c));
                     (vehicle, nid) = Vehicle_init (next_id s) dir 5 1 2 (t_entry e) (r_target e)
                 in Inr (s\<lparr>vehicles := vehicles s @ [vehicle\<lparr>position := Some start_pos\<rparr>],
                           stats := (stats s)\<lparr>total_vehicles := total_vehicles (stats s) + 1\<rparr>,
                           next_id := nid\<rparr>)))
      else Inr s)"

definition get_light_state :: "Intersection \<Rightarrow> string \<Rightarrow> string" where
  "get_light_state s dir =
     (if dir \<in> set [''north'', ''south''] then get_state (light_NS s)
      else get_state (light_EW s))"

text \<open>\<^verbatim>\<open>get_distance_to_light\<close>; unpacking a \<^verbatim>\<open>None\<close> position raises.\<close>

definition get_distance_to_light :: "Intersection \<Rightarrow> Vehicle \<Rightarrow> error + real" where
  "get_distance_to_light s vehicle =
     (case position vehicle of
        None \<Rightarrow> Inl TypeError
      | Some (x, y) \<Rightarrow>
          if direction vehicle = ''north''
            then Inr (of_int (road_length s) - y - of_int (road_length s div 2))
          else if direction vehicle = ''south'' then Inr (y - of_int (road_length s div 2))
          else if direction vehicle = ''east''
            then Inr (of_int (road_length s) - x - of_int (road_length s div 2))
          else Inr (x - of_int (road_length s div 2)))"

text \<open>
  The loop of \<^verbatim>\<open>check_collision\<close> over \<^verbatim>\<open>self.vehicles\<close>, with its early return.
\<close>

fun check_collision_loop :: "Vehicle \<Rightarrow> Vehicle list \<Rightarrow> error + bool" where
  "check_collision_loop vehicle [] = Inr False"
| "check_collision_loop vehicle (other # rest) =
     (if id_v other \<noteq> id_v vehicle then
        (case (position vehicle, position other) of
           (Some (vx, vy), Some (ox, oy)) \<Rightarrow>
             if sqrt ((vx - ox) ^ 2 + (vy - oy) ^ 2) < 2 then Inr True
             else check_collision_loop vehicle rest
         | _ \<Rightarrow> Inl TypeError)
      else check_collision_loop vehicle rest)"

definition check_collision :: "Intersection \<Rightarrow> Vehicle \<Rightarrow> error + bool" where
  "check_collision s vehicle = check_collision_loop vehicle (vehicles s)"

definition check_exit :: "Intersection \<Rightarrow> Vehicle \<Rightarrow> error + bool" where
  "check_exit s vehicle =
     (case position vehicle of
        None \<Rightarrow> Inl TypeError
      | Some (x, y) \<Rightarrow>
          if direction vehicle = ''north'' \<and> y > of_int (road_length s) then Inr True
          else if direction vehicle = ''south'' \<and> y < 0 then Inr True
          else if direction vehicle = ''east'' \<and> x > of_int (road_length s) then Inr True
          else if direction vehicle = ''west'' \<and> x < 0 then Inr True
          else Inr False)"

text \<open>
  The loop of \<^verbatim>\<open>get_front_vehicle_distance\<close>; the running minimum starts at
  \<^verbatim>\<open>float('inf')\<close>, which is \<open>None\<close> here, as in the value returned.
\<close>

fun front_loop :: "Vehicle \<Rightarrow> Vehicle list \<Rightarrow> real option \<Rightarrow> error + real option" where
  "front_loop vehicle [] min_dist = Inr min_dist"
| "front_loop vehicle (other # rest) min_dist =
     (if id_v other \<noteq> id_v vehicle \<and> direction other = direction vehicle then
        (case (position other, position vehicle) of
           (Some (ox, oy), Some (vx, vy)) \<Rightarrow>
             (let dist = (if direction vehicle = ''north'' then oy - vy
                          else if direction vehicle = ''south'' then vy - oy
                          else if direction vehicle = ''east'' then ox - vx
                          else vx - ox)
              in front_loop vehicle rest
                   (if dist > 0 \<and> (case min_dist of None \<Rightarrow> True | Some m \<Rightarrow> dist < m)
                    then Some dist else min_dist))
         | _ \<Rightarrow> Inl TypeError)
      else front_loop vehicle rest min_dist)"

definition get_front_vehicle_distance :: "Intersection \<Rightarrow> Vehicle \<Rightarrow> error + real option" where
  "get_front_vehicle_distance s vehicle = front_loop vehicle (vehicles s) None"

text \<open>
  The statistics update of an exit (the lines after \<^verbatim>\<open>to_remove.append(i)\<close> in the
  exit branch of \<^verbatim>\<open>update\<close>); the vehicle already carries its \<^verbatim>\<open>exit_time\<close>.
\<close>

definition record_exit :: "Stats \<Rightarrow> Vehicle \<Rightarrow> error + Stats" where
  "record_exit st vehicle =
     (let st1 = st\<lparr>throughput := throughput st + 1\<rparr> in
      case exit_time vehicle of
        None \<Rightarrow> Inl TypeError
      | Some t_out \<Rightarrow>
          (let travel_time = t_out - entry_time vehicle in
           if throughput st1 = 0 then Inl ZeroDivisionError
           else
             (let st2 = st1\<lparr>avg_travel_time :=
                          (avg_travel_time st1 * of_int (throughput st1 - 1) + travel_time)
                          / of_int (throughput st1)\<rparr>
              in Inr (st2\<lparr>avg_wait_time :=
                          (avg_wait_time st2 * of_int (throughput st2 - 1)
                           + of_int (wait_time vehicle))
                          / of_int (throughput st2)\<rparr>))))"

text \<open>
  The body of the \<^verbatim>\<open>for i, vehicle in enumerate(self.vehicles)\<close> loop of
  \<^verbatim>\<open>update\<close>. The vehicle object is mutated in place, so the list holds the updated
  vehicle when the collision and exit checks scan it.
\<close>

definition update_vehicle ::
  "env \<Rightarrow> Intersection \<times> nat list \<Rightarrow> nat \<Rightarrow> error + Intersection \<times> nat list" where
  "update_vehicle e acc i =
     (let (s, to_remove) = acc;
          vehicle = vehicles s ! i;
          light_state = get_light_state s (direction vehicle)
      in case get_distance_to_light s vehicle of
           Inl err \<Rightarrow> Inl err
         | Inr light_dist \<Rightarrow>
       (case get_front_vehicle_distance s vehicle of
           Inl err \<Rightarrow> Inl err
         | Inr front_dist \<Rightarrow>
       (case update_speed vehicle front_dist light_state light_dist (r_noise e i) of
           Inl err \<Rightarrow> Inl err
         | Inr v1 \<Rightarrow>
       (let v2 = move v1 (t_move e i);
            s1 = s\<lparr>vehicles := (vehicles s)[i := v2]\<rparr>
        in case check_collision s1 v2 of
             Inl err \<Rightarrow> Inl err
           | Inr True \<Rightarrow>
               Inr (s1\<lparr>vehicles := (vehicles s1)[i := v2\<lparr>exit_time := Some (t_exit e i)\<rparr>]\<rparr>,
                    to_remove @ [i])
           | Inr False \<Rightarrow>
               (case check_exit s1 v2 of
                  Inl err \<Rightarrow> Inl err
                | Inr False \<Rightarrow> Inr (s1, to_remove)
                | Inr True \<Rightarrow>
                    (let v3 = v2\<lparr>exit_time := Some (t_exit e i)\<rparr> in
                     case record_exit (stats s1) v3 of
                       Inl err \<Rightarrow> Inl err
                     | Inr st \<Rightarrow>
                         Inr (s1\<lparr>vehicles := (vehicles s1)[i := v3], stats := st\<rparr>,
                              to_remove @ [i])))))))"

fun update_loop ::
  "env \<Rightarrow> nat list \<Rightarrow> Intersection \<times> nat list \<Rightarrow> error + Intersection \<times> nat list" where
  "update_loop e [] acc = Inr acc"
| "update_loop e (i # is) acc =
     (case update_vehicle e acc i of
        Inl err \<Rightarrow> Inl err
      | Inr acc' \<Rightarrow> update_loop e is acc')"

text \<open>
  \<^verbatim>\<open>self.removed_vehicles.append(self.vehicles.pop(i))\<close> for \<open>i\<close> running through a
  list of indices; \<^verbatim>\<open>pop\<close> raises on an index beyond the list.
\<close>

fun remove_marked :: "nat list \<Rightarrow> Intersection \<Rightarrow> error + Intersection" where
  "remove_marked [] s = Inr s"
| "remove_marked (i # is) s =
     (if i < length (vehicles s) then
        remove_marked is
          (s\<lparr>removed_vehicles := removed_vehicles s @ [vehicles s ! i],
             vehicles := take i (vehicles s) @ drop (Suc i) (vehicles s)\<rparr>)
      else Inl IndexError)"

text \<open>
  The counting loop of \<^verbatim>\<open>_record_queue_lengths\<close>; \<^verbatim>\<open>queues[d] += 1\<close> raises on a
  direction that is not a key of the dictionary.
\<close>

fun count_queues ::
  "Intersection \<Rightarrow> Vehicle list \<Rightarrow> (string \<rightharpoonup> int) \<Rightarrow> error + (string \<rightharpoonup> int)" where
  "count_queues s [] queues = Inr queues"
| "count_queues s (vehicle # rest) queues =
     (case get_distance_to_light s vehicle of
        Inl err \<Rightarrow> Inl err
      | Inr light_dist \<Rightarrow>
          if light_dist < 30 \<and> speed vehicle = 0 then
            (case queues (direction vehicle) of
               None \<Rightarrow> Inl KeyError
             | Some n \<Rightarrow> count_queues s rest (queues(direction vehicle \<mapsto> n + 1)))
          else count_queues s rest queues)"

definition record_queue_lengths :: "Intersection \<Rightarrow> error + Intersection" where
  "record_queue_lengths s =
     (case count_queues s (vehicles s)
             [''north'' \<mapsto> 0, ''south'' \<mapsto> 0, ''east'' \<mapsto> 0, ''west'' \<mapsto> 0] of
        Inl err \<Rightarrow> Inl err
      | Inr queues \<Rightarrow>
          Inr (s\<lparr>stats := (stats s)\<lparr>queue_lengths :=
                 (\<lambda>d. case queues d of
                        None \<Rightarrow> queue_lengths (stats s) d
                      | Some n \<Rightarrow> queue_lengths (stats s) d @ [n])\<rparr>\<rparr>))"

text \<open>\<^verbatim>\<open>Intersection.update(step)\<close>.\<close>

definition Intersection_update :: "Intersection \<Rightarrow> int \<Rightarrow> env \<Rightarrow> error + Intersection" where
  "Intersection_update s step e =
     (let s1 = s\<lparr>light_NS := TrafficLight_update (light_NS s) step,
                 light_EW := TrafficLight_update (light_EW s) step\<rparr>
      in case spawn_vehicle s1 e of
           Inl err \<Rightarrow> Inl err
         | Inr s2 \<Rightarrow>
             (case update_loop e [0..<length (vehicles s2)] (s2, []) of
                Inl err \<Rightarrow> Inl err
              | Inr (s3, to_remove) \<Rightarrow>
                  (case remove_marked (rev (sort to_remove)) s3 of
                     Inl err \<Rightarrow> Inl err
                   | Inr s4 \<Rightarrow> record_queue_lengths s4)))"

text \<open>The states a run can be in: the constructor's, and what \<open>update\<close> returns.\<close>

inductive reachable :: "Intersection \<Rightarrow> bool" where
  init: "reachable (Intersection_init rl lw sr nid)"
| step: "reachable s \<Longrightarrow> Intersection_update s k e = Inr s' \<Longrightarrow> reachable s'"

text \<open>
  The driver: \<^verbatim>\<open>update(k)\<close>, \<^verbatim>\<open>update(k + 1)\<close>, ... with the given inputs, stopping
  at the first error.
\<close>

fun run :: "Intersection \<Rightarrow> int \<Rightarrow> env list \<Rightarrow> error + Intersection" where
  "run s k [] = Inr s"
| "run s k (e # es) =
     (case Intersection_update s k e of
        Inl err \<Rightarrow> Inl err
      | Inr s' \<Rightarrow> run s' (k + 1) es)"

section \<open>Invariants of a run\<close>

text \<open>
  A vehicle as the simulation keeps it: it has a position and one of the four
  directions, its acceleration and deceleration are positive, and its speed lies between
  0 and its maximal speed.
\<close>

definition placed :: "Vehicle \<Rightarrow> bool" where
  "placed v \<longleftrightarrow> position v \<noteq> None
     \<and> direction v \<in> set [''north'', ''south'', ''east'', ''west'']
     \<and> 0 < acceleration v \<and> 0 < deceleration v
     \<and> 0 \<le> speed v \<and> speed v \<le> max_speed v"

text \<open>
  The queue sample, stated on coordinates. The signal line of a direction is the road's
  midpoint line across the direction of travel: north- and east-bound vehicles meet it at
  coordinate \<open>road_length - road_length div 2\<close>, south- and west-bound ones at
  \<open>road_length div 2\<close>. The line distance of a vehicle is what remains to that line
  along its direction of travel; it is negative once the vehicle has passed the line.
\<close>

definition line_distance :: "Intersection \<Rightarrow> Vehicle \<Rightarrow> real option" where
  "line_distance s v =
     (case position v of
        None \<Rightarrow> None
      | Some (x, y) \<Rightarrow>
          if direction v = ''north''
            then Some ((of_int (road_length s) - of_int (road_length s div 2)) - y)
          else if direction v = ''south'' then Some (y - of_int (road_length s div 2))
          else if direction v = ''east''
            then Some ((of_int (road_length s) - of_int (road_length s div 2)) - x)
          else if direction v = ''west'' then Some (x - of_int (road_length s div 2))
          else None)"



definition stopped_below :: "Intersection \<Rightarrow> Vehicle \<Rightarrow> bool" where
  "stopped_below s v =
     (case line_distance s v of
        None \<Rightarrow> False
      | Some d \<Rightarrow> d < 30 \<and> speed v = 0)"

text \<open>The number of vehicles of a direction, in a list, that a reading selects.\<close>

definition sample_of ::
  "(Intersection \<Rightarrow> Vehicle \<Rightarrow> bool) \<Rightarrow> Intersection \<Rightarrow> Vehicle list \<Rightarrow> string \<Rightarrow> int" where
  "sample_of P s vs d = int (length (filter (\<lambda>v. direction v = d \<and> P s v) vs))"

text \<open>
  What holds of every state of a run: active vehicles are as above and carry no exit
  time, removed ones carry one; the counters are consistent; the four road boundaries
  are there; identifiers are unique and below the class counter.
\<close>

definition sim_inv :: "Intersection \<Rightarrow> bool" where
  "sim_inv s \<longleftrightarrow>
       (\<forall>v\<in>set (vehicles s). placed v \<and> exit_time v = None)
     \<and> (\<forall>v\<in>set (removed_vehicles s). placed v \<and> exit_time v \<noteq> None)
     \<and> 0 \<le> throughput (stats s)
     \<and> throughput (stats s) + int (length (vehicles s)) \<le> total_vehicles (stats s)
     \<and> (\<forall>d\<in>set [''north'', ''south'', ''east'', ''west'']. road_boundaries s d \<noteq> None)
     \<and> distinct (map id_v (vehicles s @ removed_vehicles s))
     \<and> (\<forall>v\<in>set (vehicles s @ removed_vehicles s). id_v v < next_id s)"

text \<open>
  The invariant of the loop over the vehicles after \<open>k\<close> iterations, started in
  \<open>s0\<close>: only the vehicles and the statistics differ from \<open>s0\<close>; the marked indices
  are increasing and below \<open>k\<close>; a marked vehicle carries the exit time read in its
  iteration; an unmarked one among the first \<open>k\<close> fails the exit check.
\<close>

definition loop_inv :: "env \<Rightarrow> Intersection \<Rightarrow> nat \<Rightarrow> Intersection \<times> nat list \<Rightarrow> bool" where
  "loop_inv e s0 k acc \<longleftrightarrow>
     (case acc of (s, tr) \<Rightarrow>
        (\<exists>vs st. s = s0\<lparr>vehicles := vs, stats := st\<rparr>)
      \<and> length (vehicles s) = length (vehicles s0)
      \<and> (\<forall>v\<in>set (vehicles s). placed v)
      \<and> (\<forall>j<length (vehicles s0).
            id_v (vehicles s ! j) = id_v (vehicles s0 ! j)
          \<and> direction (vehicles s ! j) = direction (vehicles s0 ! j)
          \<and> entry_time (vehicles s ! j) = entry_time (vehicles s0 ! j))
      \<and> total_vehicles (stats s) = total_vehicles (stats s0)
      \<and> queue_lengths (stats s) = queue_lengths (stats s0)
      \<and> throughput (stats s0) \<le> throughput (stats s)
      \<and> throughput (stats s) \<le> throughput (stats s0) + int (length tr)
      \<and> sorted_wrt (<) tr \<and> (\<forall>j\<in>set tr. j < k)
      \<and> (\<forall>j<length (vehicles s0). j \<notin> set tr \<longrightarrow>
            exit_time (vehicles s ! j) = exit_time (vehicles s0 ! j))
      \<and> (\<forall>j<k. j \<notin> set tr \<longrightarrow> check_exit s0 (vehicles s ! j) = Inr False)
      \<and> (\<forall>j\<in>set tr. exit_time (vehicles s ! j) = Some (t_exit e j)))"

section \<open>Concrete inputs\<close>

text \<open>A vehicle as \<^verbatim>\<open>Vehicle("north")\<close> builds it, and one that has been slowed to 1/2.\<close>

definition default_vehicle :: Vehicle where
  "default_vehicle = fst (Vehicle_init 0 ''north'' 5 1 2 0 0)"

definition slow_vehicle :: Vehicle where
  "slow_vehicle = default_vehicle\<lparr>speed := 1 / 2\<rparr>"

text \<open>
  A vehicle marked as having left at time \<open>10 + t\<close> after entering at time 10, and the
  statistics of a simulation before its first step.
\<close>

definition exited_vehicle :: "real \<Rightarrow> Vehicle" where
  "exited_vehicle t =
     default_vehicle\<lparr>position := Some (100, 201), entry_time := 10, exit_time := Some (10 + t)\<rparr>"

definition empty_stats :: Stats where
  "empty_stats = stats (Intersection_init 200 15 (1 / 2) 0)"

text \<open>
  A simulation on a road of length 4 that spawns at every step; inputs that spawn a
  north-bound vehicle in mid-lane without random slowdown, the same without a spawn, and
  the same with the random slowdown drawn.
\<close>

definition small_sim :: Intersection where
  "small_sim = Intersection_init 4 2 1 0"

definition env_spawn :: env where
  "env_spawn = \<lparr>r_spawn = 0, k_choice = 0, u_uniform = 1 / 2, t_entry = 10, r_target = 0,
     r_noise = (\<lambda>i. 1 / 2), t_move = (\<lambda>i. 11), t_exit = (\<lambda>i. 12)\<rparr>"

definition env_quiet :: env where
  "env_quiet = env_spawn\<lparr>r_spawn := 1\<rparr>"

definition env_slow :: env where
  "env_slow = env_spawn\<lparr>r_noise := (\<lambda>i. 0)\<rparr>"

text \<open>
  A simulation on a road of length 200 with two north-bound vehicles at full speed, at
  \<open>y = 190\<close> and \<open>y = 198\<close>.
\<close>

definition two_cars :: Intersection where
  "two_cars = (Intersection_init 200 15 (1 / 2) 2)
     \<lparr>vehicles := [default_vehicle\<lparr>position := Some (100, 190), speed := 5\<rparr>,
                    default_vehicle\<lparr>id_v := 1, position := Some (100, 198), speed := 5\<rparr>],
      stats := (stats (Intersection_init 200 15 (1 / 2) 2))\<lparr>total_vehicles := 2\<rparr>\<rparr>"





section \<open>The signal\<close>

lemma TrafficLight_init_60: "TrafficLight_init 60 (1 / 2) =
  \<lparr>cycle = 60, green_duration = 30, yellow_duration = 3, red_duration = 27,
   state = ''green'', timer = 0\<rparr>"
proof -
  have "py_int (of_int 60 * (1 / 2)) = 30"
    by (simp add: py_int_def)
  then show ?thesis
    by (simp add: TrafficLight_init_def)
qed

lemma TrafficLight_init_4: "TrafficLight_init 4 (1 / 2) =
  \<lparr>cycle = 4, green_duration = 2, yellow_duration = 3, red_duration = - 1,
   state = ''green'', timer = 0\<rparr>"
proof -
  have "py_int (of_int 4 * (1 / 2)) = 2"
    by (simp add: py_int_def)
  then show ?thesis
    by (simp add: TrafficLight_init_def)
qed

text \<open>
  C3. A signal built with cycle 60 and green ratio 0.5 starts green with timer 0; after
  30 calls of \<open>update\<close> it is yellow, after 33 calls red, and after 60 calls green again
  with timer 0, whatever step numbers the calls are given.
\<close>

theorem signal_scenario:
  "state (TrafficLight_init 60 (1 / 2)) = ''green''
   \<and> timer (TrafficLight_init 60 (1 / 2)) = 0
   \<and> state (TrafficLight_run 30 (TrafficLight_init 60 (1 / 2)) k) = ''yellow''
   \<and> state (TrafficLight_run 33 (TrafficLight_init 60 (1 / 2)) k) = ''red''
   \<and> state (TrafficLight_run 60 (TrafficLight_init 60 (1 / 2)) k) = ''green''
   \<and> timer (TrafficLight_run 60 (TrafficLight_init 60 (1 / 2)) k) = 0"
proof -
  let ?l = "TrafficLight_init 60 (1 / 2)"
  have "state ?l = ''green''" "timer ?l = 0"
    by (simp_all add: TrafficLight_init_60)
  moreover have "state (TrafficLight_run 30 ?l k) = ''yellow''"
    by (simp add: TrafficLight_init_60 TrafficLight_update_def eval_nat_numeral)
  moreover have "state (TrafficLight_run 33 ?l k) = ''red''"
    by (simp add: TrafficLight_init_60 TrafficLight_update_def eval_nat_numeral)
  moreover have "TrafficLight_run 60 ?l k = ?l"
    by (simp add: TrafficLight_init_60 TrafficLight_update_def eval_nat_numeral)
  ultimately show ?thesis by simp
qed

text \<open>
  The durations are fixed by the constructor, and the timer, which starts at 0 and is
  only incremented or reset, is never negative.
\<close>

lemma TrafficLight_update_frame:
  "red_duration (TrafficLight_update l k) = red_duration l
   \<and> (0 \<le> timer l \<longrightarrow> 0 \<le> timer (TrafficLight_update l k))"
  by (simp add: TrafficLight_update_def Let_def)

lemma TrafficLight_run_frame:
  "0 \<le> timer l \<Longrightarrow>
   red_duration (TrafficLight_run n l k) = red_duration l \<and> 0 \<le> timer (TrafficLight_run n l k)"
proof (induction n arbitrary: l k)
  case 0
  then show ?case by simp
next
  case (Suc n)
  have "0 \<le> timer (TrafficLight_update l k)"
    using Suc.prems TrafficLight_update_frame by blast
  from Suc.IH [OF this] show ?case
    using TrafficLight_update_frame by simp
qed

text \<open>
  Against C4 as stated: with cycle 4 and green ratio 0.5 the durations are 2, 3 and -1,
  so green + yellow exceeds the cycle. After 5 calls the signal is red, and the next call
  takes it out of red.
\<close>

theorem red_hang_counterexample:
  "green_duration (TrafficLight_init 4 (1 / 2)) + yellow_duration (TrafficLight_init 4 (1 / 2))
     > cycle (TrafficLight_init 4 (1 / 2))
   \<and> state (TrafficLight_run 5 (TrafficLight_init 4 (1 / 2)) 0) = ''red''
   \<and> state (TrafficLight_update (TrafficLight_run 5 (TrafficLight_init 4 (1 / 2)) 0) 5) = ''green''"
  by (simp add: TrafficLight_init_4 TrafficLight_update_def eval_nat_numeral)

text \<open>
  C4, amended. For a signal built so that green + yellow is at least the cycle (the red
  duration is zero or negative), in any state it reaches by calls of \<open>update\<close>: if it
  is red, the next call of \<open>update\<close> makes it green with timer 0. The red phase's
  elapsed-time check is always true there, so red lasts a single tick.
\<close>

theorem red_exits_at_once:
  assumes "l0 = TrafficLight_init c g"
    and "cycle l0 \<le> green_duration l0 + yellow_duration l0"
    and "l = TrafficLight_run n l0 k"
    and "state l = ''red''"
  shows "TrafficLight_update l k' = l\<lparr>state := ''green'', timer := 0\<rparr>"
proof -
  have "timer l0 = 0" and r0: "red_duration l0 = cycle l0 - green_duration l0 - yellow_duration l0"
    using assms(1) by (simp_all add: TrafficLight_init_def Let_def)
  then have "red_duration l = red_duration l0" "0 \<le> timer l"
    using TrafficLight_run_frame [of l0 n k] assms(3) by simp_all
  then have "red_duration l \<le> timer l + 1"
    using r0 assms(2) by simp
  then show ?thesis
    using assms(4) by (simp add: TrafficLight_update_def Let_def)
qed

theorem red_exits_at_once_witness:
  "cycle (TrafficLight_init 4 (1 / 2))
     \<le> green_duration (TrafficLight_init 4 (1 / 2)) + yellow_duration (TrafficLight_init 4 (1 / 2))
   \<and> state (TrafficLight_run 5 (TrafficLight_init 4 (1 / 2)) 0) = ''red''
   \<and> TrafficLight_update (TrafficLight_run 5 (TrafficLight_init 4 (1 / 2)) 0) 5
       = TrafficLight_init 4 (1 / 2)"
proof -
  let ?init = "TrafficLight_init 4 (1 / 2)"
  let ?red = "TrafficLight_run 5 ?init 0"
  have c: "cycle ?init \<le> green_duration ?init + yellow_duration ?init"
    by (simp add: TrafficLight_init_4)
  have l: "?red = ?init\<lparr>state := ''red''\<rparr>"
    by (simp add: TrafficLight_init_4 TrafficLight_update_def eval_nat_numeral)
  then have r: "state ?red = ''red''"
    by simp
  have "TrafficLight_update ?red 5 = ?red\<lparr>state := ''green'', timer := 0\<rparr>"
    using red_exits_at_once [OF refl c refl r] .
  also have "\<dots> = ?init"
    unfolding l by (simp add: TrafficLight_init_4)
  finally show ?thesis
    using c r by blast
qed

section \<open>The vehicle\<close>

lemma accelerated_bounds:
  assumes "0 < acceleration v" "0 \<le> speed v" "speed v \<le> max_speed v"
  shows "0 \<le> accelerated v \<and> accelerated v \<le> max_speed v"
  using assms by (auto simp: accelerated_def)

lemma move_speed: "speed (move v now) = speed v \<and> max_speed (move v now) = max_speed v"
  by (simp add: move_def Let_def split: option.splits prod.splits)

text \<open>No step after the first raises the speed, and none makes it negative.\<close>

lemma car_following_range:
  "car_following s sd fd \<le> max 0 s \<and> (0 \<le> s \<longrightarrow> 0 \<le> car_following s sd fd)"
  by (auto simp: car_following_def split: option.splits)

lemma light_braking_range:
  assumes "0 < dec"
  shows "\<exists>s3. light_braking s dec sd ls ld = Inr s3 \<and> s3 \<le> max 0 s \<and> (0 \<le> s \<longrightarrow> 0 \<le> s3)"
  using assms by (auto simp: light_braking_def Let_def)

lemma random_slowdown_range:
  "random_slowdown r s \<le> max 0 s \<and> (0 \<le> s \<longrightarrow> 0 \<le> random_slowdown r s)"
  by (auto simp: random_slowdown_def)

lemma update_speed_range:
  assumes "0 < deceleration v"
  shows "\<exists>s. update_speed v fd ls ld r = Inr (v\<lparr>speed := s\<rparr>)
     \<and> s \<le> max 0 (car_following (accelerated v) (max 2 (accelerated v * (3 / 2))) fd)
     \<and> (0 \<le> accelerated v \<longrightarrow> 0 \<le> s)"
proof -
  let ?sd = "max 2 (accelerated v * (3 / 2))"
  let ?s2 = "car_following (accelerated v) ?sd fd"
  obtain s3 where s3: "light_braking ?s2 (deceleration v) ?sd ls ld = Inr s3"
    "s3 \<le> max 0 ?s2" "0 \<le> ?s2 \<longrightarrow> 0 \<le> s3"
    using light_braking_range [OF assms] by blast
  have u: "update_speed v fd ls ld r = Inr (v\<lparr>speed := random_slowdown r s3\<rparr>)"
    using s3(1) by (simp add: update_speed_def Let_def)
  have "random_slowdown r s3 \<le> max 0 s3" "0 \<le> s3 \<longrightarrow> 0 \<le> random_slowdown r s3"
    using random_slowdown_range by auto
  moreover have "0 \<le> accelerated v \<longrightarrow> 0 \<le> ?s2"
    using car_following_range by blast
  ultimately show ?thesis using u s3(2,3) by auto
qed

text \<open>
  Against C2 as stated: a vehicle at speed 1/2 (maximal speed 5, acceleration 1) with
  the vehicle ahead at distance 9/4, a green light and no random slowdown. It accelerates
  to 3/2; the safe distance is 9/4, the front distance is not below it, the clamp is
  skipped, and the new speed 3/2 exceeds 9/4 - 1.
\<close>

theorem following_bound_counterexample:
  "update_speed slow_vehicle (Some (9 / 4)) ''green'' 50 (1 / 2)
     = Inr (slow_vehicle\<lparr>speed := 3 / 2\<rparr>)
   \<and> \<not> (3 / 2 \<le> max 0 ((9 / 4 :: real) - 1))"
  by (simp add: update_speed_def slow_vehicle_def default_vehicle_def Vehicle_init_def
      accelerated_def car_following_def light_braking_def random_slowdown_def Let_def)

text \<open>
  C2, amended. For a vehicle with positive deceleration and a front distance \<open>d\<close>
  that is provided: if \<open>d\<close> is below the safe distance (the larger of 2 and 1.5 times
  the speed after the acceleration step), or that speed is at most 1 or at least 2, then
  \<open>update_speed\<close> returns a vehicle whose speed is at most \<open>max 0 (d - 1)\<close>, whatever
  the prior speed, the light state, the light distance and the random draw.
\<close>

theorem following_bound:
  assumes "0 < deceleration v"
    and "d < max 2 (accelerated v * (3 / 2)) \<or> accelerated v \<le> 1 \<or> 2 \<le> accelerated v"
  shows "\<exists>v'. update_speed v (Some d) light_state light_dist r = Inr v'
            \<and> speed v' \<le> max 0 (d - 1)"
proof -
  let ?s1 = "accelerated v"
  let ?s2 = "car_following ?s1 (max 2 (?s1 * (3 / 2))) (Some d)"
  obtain s where s: "update_speed v (Some d) light_state light_dist r = Inr (v\<lparr>speed := s\<rparr>)"
    "s \<le> max 0 ?s2"
    using update_speed_range [OF assms(1)] by blast
  have "?s2 \<le> max 0 (d - 1)"
    using assms(2) by (auto simp: car_following_def)
  then show ?thesis
    using s by auto
qed

theorem following_bound_witness:
  "0 < deceleration default_vehicle
   \<and> (3 / 2 :: real) < max 2 (accelerated default_vehicle * (3 / 2))
   \<and> update_speed default_vehicle (Some (3 / 2)) ''green'' 50 (1 / 2)
       = Inr (default_vehicle\<lparr>speed := 1 / 2\<rparr>)
   \<and> (1 / 2 :: real) \<le> max 0 (3 / 2 - 1)"
  using following_bound [of default_vehicle "3 / 2" "''green''" 50 "1 / 2"]
  by (simp add: update_speed_def default_vehicle_def Vehicle_init_def accelerated_def
      car_following_def light_braking_def random_slowdown_def Let_def)

text \<open>
  Against C9 as stated: a vehicle fresh from the constructor has no position and speed
  0, and \<open>move\<close> raises its \<open>wait_time\<close> from 0 to 1.
\<close>

theorem move_unplaced_counterexample:
  "position default_vehicle = None \<and> wait_time default_vehicle = 0
   \<and> wait_time (move default_vehicle 0) = 1"
  by (simp add: move_def default_vehicle_def Vehicle_init_def)

text \<open>
  C9, amended. For a vehicle whose position is \<open>None\<close>, \<open>move\<close> leaves the position,
  the path, the speed and every other field but \<open>wait_time\<close> unchanged; \<open>wait_time\<close>
  is unchanged when the speed is not 0 and is raised by 1 when the speed is 0.
\<close>

theorem move_unplaced:
  assumes "position v = None"
  shows "move v now = (if speed v = 0 then v\<lparr>wait_time := wait_time v + 1\<rparr> else v)"
  using assms by (simp add: move_def)

theorem move_unplaced_witness:
  "position (default_vehicle\<lparr>speed := 3\<rparr>) = None
   \<and> move (default_vehicle\<lparr>speed := 3\<rparr>) 0 = default_vehicle\<lparr>speed := 3\<rparr>
   \<and> position default_vehicle = None
   \<and> move default_vehicle 0 = default_vehicle\<lparr>wait_time := 1\<rparr>"
  using move_unplaced [of "default_vehicle\<lparr>speed := 3\<rparr>" 0] move_unplaced [of default_vehicle 0]
  by (simp add: default_vehicle_def Vehicle_init_def)

section \<open>The running averages\<close>

text \<open>
  What the exit branch does to the statistics: the count goes up by one and each average
  becomes (old average * (n - 1) + new value) / n for the new count \<open>n\<close>.
\<close>

lemma record_exit_eq:
  assumes "exit_time v = Some x" "throughput st + 1 \<noteq> 0"
  shows "record_exit st v = Inr (st\<lparr>throughput := throughput st + 1,
     avg_travel_time := (avg_travel_time st * of_int (throughput st) + (x - entry_time v))
                         / of_int (throughput st + 1),
     avg_wait_time := (avg_wait_time st * of_int (throughput st) + of_int (wait_time v))
                         / of_int (throughput st + 1)\<rparr>)"
  using assms by (simp add: record_exit_def Let_def)

text \<open>
  C6. Starting from average travel time 0 and throughput 0, three exits with travel
  times (exit time minus entry time) 5, 7 and 9, processed in that order, leave the
  average travel time at 5, then 6, then 7; each new average is
  (old average * (n - 1) + new value) / n with \<open>n\<close> the throughput after its increment.
\<close>

theorem incremental_mean:
  assumes "avg_travel_time st = 0" "throughput st = 0"
    and "exit_time v1 = Some x1" "x1 - entry_time v1 = 5"
    and "exit_time v2 = Some x2" "x2 - entry_time v2 = 7"
    and "exit_time v3 = Some x3" "x3 - entry_time v3 = 9"
  shows "\<exists>st1 st2 st3.
           record_exit st v1 = Inr st1 \<and> throughput st1 = 1 \<and> avg_travel_time st1 = 5
         \<and> avg_travel_time st1
             = (avg_travel_time st * of_int (throughput st1 - 1) + 5) / of_int (throughput st1)
         \<and> record_exit st1 v2 = Inr st2 \<and> throughput st2 = 2 \<and> avg_travel_time st2 = 6
         \<and> avg_travel_time st2
             = (avg_travel_time st1 * of_int (throughput st2 - 1) + 7) / of_int (throughput st2)
         \<and> record_exit st2 v3 = Inr st3 \<and> throughput st3 = 3 \<and> avg_travel_time st3 = 7
         \<and> avg_travel_time st3
             = (avg_travel_time st2 * of_int (throughput st3 - 1) + 9) / of_int (throughput st3)"
proof -
  obtain st1 where 1: "record_exit st v1 = Inr st1" "throughput st1 = 1" "avg_travel_time st1 = 5"
    using record_exit_eq [of v1 x1 st] assms by simp
  obtain st2 where 2: "record_exit st1 v2 = Inr st2" "throughput st2 = 2" "avg_travel_time st2 = 6"
    using record_exit_eq [of v2 x2 st1] assms 1 by simp
  obtain st3 where 3: "record_exit st2 v3 = Inr st3" "throughput st3 = 3" "avg_travel_time st3 = 7"
    using record_exit_eq [of v3 x3 st2] assms 2 by simp
  show ?thesis
    using 1 2 3 assms(1) by simp
qed

theorem incremental_mean_witness:
  "avg_travel_time empty_stats = 0 \<and> throughput empty_stats = 0
   \<and> (\<exists>st1 st2 st3.
           record_exit empty_stats (exited_vehicle 5) = Inr st1 \<and> avg_travel_time st1 = 5
         \<and> record_exit st1 (exited_vehicle 7) = Inr st2 \<and> avg_travel_time st2 = 6
         \<and> record_exit st2 (exited_vehicle 9) = Inr st3 \<and> avg_travel_time st3 = 7)"
  using incremental_mean
    [of empty_stats "exited_vehicle 5" 15 "exited_vehicle 7" 17 "exited_vehicle 9" 19]
  by (simp add: empty_stats_def exited_vehicle_def Intersection_init_def Let_def) blast

section \<open>One step of the simulation\<close>

lemma get_distance_to_light_total:
  "position v \<noteq> None \<Longrightarrow> \<exists>d. get_distance_to_light s v = Inr d"
  by (auto simp: get_distance_to_light_def split: option.splits prod.splits)

lemma front_loop_total:
  "position v \<noteq> None \<Longrightarrow> \<forall>other\<in>set vs. position other \<noteq> None \<Longrightarrow> \<exists>m. front_loop v vs m0 = Inr m"
proof (induction vs arbitrary: m0)
  case Nil
  then show ?case by simp
next
  case (Cons other rest)
  obtain vx vy ox oy where p: "position v = Some (vx, vy)" "position other = Some (ox, oy)"
    using Cons.prems by fastforce
  have r: "\<And>m. \<exists>m'. front_loop v rest m = Inr m'"
    using Cons by simp
  show ?case
    using r p by (simp add: Let_def)
qed

lemma check_collision_loop_total:
  "position v \<noteq> None \<Longrightarrow> \<forall>other\<in>set vs. position other \<noteq> None \<Longrightarrow> \<exists>b. check_collision_loop v vs = Inr b"
proof (induction vs)
  case Nil
  then show ?case by auto
next
  case (Cons other rest)
  obtain vx vy ox oy where p: "position v = Some (vx, vy)" "position other = Some (ox, oy)"
    using Cons.prems by fastforce
  have r: "\<exists>b. check_collision_loop v rest = Inr b"
    using Cons by simp
  show ?case
    using r p by auto
qed

lemma check_exit_total:
  "position v \<noteq> None \<Longrightarrow> \<exists>b. check_exit s v = Inr b"
  by (auto simp: check_exit_def split: option.splits prod.splits)

lemma check_exit_road:
  "road_length s' = road_length s \<Longrightarrow> check_exit s' v = check_exit s v"
  by (simp add: check_exit_def split: option.splits)

lemma move_frame:
  "id_v (move v t) = id_v v \<and> direction (move v t) = direction v
   \<and> deceleration (move v t) = deceleration v \<and> acceleration (move v t) = acceleration v
   \<and> speed (move v t) = speed v \<and> max_speed (move v t) = max_speed v
   \<and> entry_time (move v t) = entry_time v
   \<and> exit_time (move v t) = exit_time v \<and> (position (move v t) = None \<longleftrightarrow> position v = None)"
  by (simp add: move_def Let_def split: option.splits prod.splits)

lemma placed_move: "placed v \<Longrightarrow> placed (move v t)"
  using move_frame [of v t] by (simp add: placed_def)

lemma placed_speed:
  "placed v \<Longrightarrow> 0 \<le> x \<Longrightarrow> x \<le> max_speed v \<Longrightarrow> placed (v\<lparr>speed := x\<rparr>)"
  by (simp add: placed_def)

lemma placed_exit: "placed v \<Longrightarrow> placed (v\<lparr>exit_time := x\<rparr>)"
  by (simp add: placed_def)

lemma update_speed_placed:
  assumes "placed v"
  shows "\<exists>x. update_speed v fd ls ld r = Inr (v\<lparr>speed := x\<rparr>) \<and> 0 \<le> x \<and> x \<le> max_speed v"
proof -
  let ?a = "accelerated v"
  let ?c = "car_following ?a (max 2 (?a * (3 / 2))) fd"
  have d: "0 < deceleration v" and a: "0 \<le> ?a" "?a \<le> max_speed v"
    using assms accelerated_bounds [of v] by (simp_all add: placed_def)
  obtain x where x: "update_speed v fd ls ld r = Inr (v\<lparr>speed := x\<rparr>)"
    "x \<le> max 0 ?c" "0 \<le> ?a \<longrightarrow> 0 \<le> x"
    using update_speed_range [OF d] by blast
  have "?c \<le> max 0 ?a"
    using car_following_range by blast
  then have "x \<le> max_speed v" "0 \<le> x"
    using x(2,3) a by auto
  then show ?thesis using x(1) by blast
qed

lemma record_exit_total:
  assumes "exit_time v = Some x" "0 \<le> throughput st"
  shows "\<exists>st'. record_exit st v = Inr st' \<and> throughput st' = throughput st + 1
     \<and> total_vehicles st' = total_vehicles st \<and> queue_lengths st' = queue_lengths st"
proof -
  have "throughput st + 1 \<noteq> 0" using assms(2) by simp
  from record_exit_eq [OF assms(1) this] show ?thesis by simp
qed

lemma update_vehicle_step:
  assumes ok: "\<forall>v\<in>set (vehicles s). placed v" and i: "i < length (vehicles s)"
    and thr: "0 \<le> throughput (stats s)"
  shows "\<exists>v' st' b. update_vehicle e (s, tr) i
           = Inr (s\<lparr>vehicles := (vehicles s)[i := v'], stats := st'\<rparr>, if b then tr @ [i] else tr)
     \<and> placed v' \<and> id_v v' = id_v (vehicles s ! i) \<and> direction v' = direction (vehicles s ! i)
     \<and> entry_time v' = entry_time (vehicles s ! i)
     \<and> total_vehicles st' = total_vehicles (stats s) \<and> queue_lengths st' = queue_lengths (stats s)
     \<and> throughput (stats s) \<le> throughput st'
     \<and> (if b then exit_time v' = Some (t_exit e i) \<and> throughput st' \<le> throughput (stats s) + 1
         else st' = stats s \<and> exit_time v' = exit_time (vehicles s ! i)
              \<and> check_exit s v' = Inr False)"
proof -
  let ?v = "vehicles s ! i"
  have pv: "placed ?v" using ok i by simp
  then have pos: "position ?v \<noteq> None" by (simp add: placed_def)
  have allpos: "\<forall>other\<in>set (vehicles s). position other \<noteq> None"
    using ok by (simp add: placed_def)
  obtain ld where ld: "get_distance_to_light s ?v = Inr ld"
    using get_distance_to_light_total [OF pos] by blast
  obtain fd where fd: "get_front_vehicle_distance s ?v = Inr fd"
    using front_loop_total [OF pos allpos] by (auto simp: get_front_vehicle_distance_def)
  obtain x where x: "update_speed ?v fd (get_light_state s (direction ?v)) ld (r_noise e i)
      = Inr (?v\<lparr>speed := x\<rparr>)" and xb: "0 \<le> x" "x \<le> max_speed ?v"
    using update_speed_placed [OF pv] by blast
  let ?w = "move (?v\<lparr>speed := x\<rparr>) (t_move e i)"
  let ?s1 = "s\<lparr>vehicles := (vehicles s)[i := ?w]\<rparr>"
  let ?out = "?w\<lparr>exit_time := Some (t_exit e i)\<rparr>"
  have p2: "placed ?w"
    using pv xb by (intro placed_move placed_speed)
  have f2: "id_v ?w = id_v ?v" "direction ?w = direction ?v" "entry_time ?w = entry_time ?v"
    "exit_time ?w = exit_time ?v"
    using move_frame [of "?v\<lparr>speed := x\<rparr>" "t_move e i"] by simp_all
  have pos2: "position ?w \<noteq> None" using p2 by (simp add: placed_def)
  have allpos1: "\<forall>other\<in>set (vehicles ?s1). position other \<noteq> None"
    using allpos pos2 by (auto dest!: set_update_subset_insert [THEN subsetD])
  obtain c where c: "check_collision ?s1 ?w = Inr c"
    using check_collision_loop_total [OF pos2 allpos1] by (auto simp: check_collision_def)
  obtain ex where ex: "check_exit ?s1 ?w = Inr ex"
    using check_exit_total [OF pos2] by blast
  have exs: "check_exit s ?w = Inr ex"
    using ex check_exit_road [of ?s1 s ?w] by simp
  have po: "placed ?out"
    using p2 by (rule placed_exit)
  show ?thesis
  proof (cases c)
    case True
    have "update_vehicle e (s, tr) i
      = Inr (s\<lparr>vehicles := (vehicles s)[i := ?out], stats := stats s\<rparr>,
             if True then tr @ [i] else tr)"
      using c True by (simp add: update_vehicle_def ld fd x Let_def)
    then show ?thesis
      using f2 po by (intro exI [of _ ?out] exI [of _ "stats s"] exI [of _ True]) simp
  next
    case False
    note nc = False
    show ?thesis
    proof (cases ex)
      case True
      obtain st' where st': "record_exit (stats s) ?out = Inr st'" "throughput st' = throughput (stats s) + 1"
        "total_vehicles st' = total_vehicles (stats s)" "queue_lengths st' = queue_lengths (stats s)"
        using record_exit_total [of ?out "t_exit e i" "stats s"] thr by auto
      have "update_vehicle e (s, tr) i
        = Inr (s\<lparr>vehicles := (vehicles s)[i := ?out], stats := st'\<rparr>, if True then tr @ [i] else tr)"
        using c nc ex True st'(1) by (simp add: update_vehicle_def ld fd x Let_def)
      then show ?thesis
        using f2 st'(2-4) po by (intro exI [of _ ?out] exI [of _ st'] exI [of _ True]) simp
    next
      case False
      have "update_vehicle e (s, tr) i
        = Inr (s\<lparr>vehicles := (vehicles s)[i := ?w], stats := stats s\<rparr>, if False then tr @ [i] else tr)"
        using c nc ex False by (simp add: update_vehicle_def ld fd x Let_def)
      then show ?thesis
        using f2 p2 exs False by (intro exI [of _ ?w] exI [of _ "stats s"] exI [of _ False]) simp
    qed
  qed
qed

lemma loop_inv_start:
  assumes "\<forall>v\<in>set (vehicles s0). placed v"
  shows "loop_inv e s0 0 (s0, [])"
proof -
  have "s0 = s0\<lparr>vehicles := vehicles s0, stats := stats s0\<rparr>" by simp
  then have "\<exists>vs st. s0 = s0\<lparr>vehicles := vs, stats := st\<rparr>" by blast
  then show ?thesis
    using assms by (simp add: loop_inv_def)
qed

lemma loop_inv_step:
  assumes inv: "loop_inv e s0 k (s, tr)" and k: "k < length (vehicles s0)"
    and thr: "0 \<le> throughput (stats s0)"
  shows "\<exists>acc'. update_vehicle e (s, tr) k = Inr acc' \<and> loop_inv e s0 (Suc k) acc'"
proof -
  have len: "length (vehicles s) = length (vehicles s0)"
    and ok: "\<forall>v\<in>set (vehicles s). placed v"
    and thr': "throughput (stats s0) \<le> throughput (stats s)"
    and ktr: "\<forall>j\<in>set tr. j < k"
    using inv by (simp_all add: loop_inv_def)
  obtain vs st where s: "s = s0\<lparr>vehicles := vs, stats := st\<rparr>"
    using inv by (auto simp: loop_inv_def)
  have rl: "road_length s = road_length s0"
    using s by simp
  have k': "k < length (vehicles s)" using k len by simp
  have thr0: "0 \<le> throughput (stats s)" using thr thr' by simp
  obtain v' st' b where u: "update_vehicle e (s, tr) k
           = Inr (s\<lparr>vehicles := (vehicles s)[k := v'], stats := st'\<rparr>, if b then tr @ [k] else tr)"
     and v': "placed v'" "id_v v' = id_v (vehicles s ! k)" "direction v' = direction (vehicles s ! k)"
       "entry_time v' = entry_time (vehicles s ! k)"
     and st': "total_vehicles st' = total_vehicles (stats s)" "queue_lengths st' = queue_lengths (stats s)"
       "throughput (stats s) \<le> throughput st'"
     and b: "if b then exit_time v' = Some (t_exit e k) \<and> throughput st' \<le> throughput (stats s) + 1
         else st' = stats s \<and> exit_time v' = exit_time (vehicles s ! k)
              \<and> check_exit s v' = Inr False"
    using update_vehicle_step [OF ok k' thr0, of e tr] by blast
  have knot: "k \<notin> set tr" using ktr by auto
  define ws where "ws = (vehicles s)[k := v']"
  define tr' where "tr' = (if b then tr @ [k] else tr)"
  have wk: "ws ! k = v'" and wj: "\<And>j. j \<noteq> k \<Longrightarrow> ws ! j = vehicles s ! j"
    and wl: "length ws = length (vehicles s0)"
    using k' len by (simp_all add: ws_def)
  have trb: "b \<Longrightarrow> tr' = tr @ [k]" "\<not> b \<Longrightarrow> tr' = tr"
    by (simp_all add: tr'_def)
  have ce: "check_exit s0 v' = check_exit s v'"
    using check_exit_road [OF rl] by simp
  have "s\<lparr>vehicles := ws, stats := st'\<rparr> = s0\<lparr>vehicles := ws, stats := st'\<rparr>"
    using s by simp
  then have 1: "\<exists>vs st. s\<lparr>vehicles := ws, stats := st'\<rparr> = s0\<lparr>vehicles := vs, stats := st\<rparr>"
    by blast
  have 2: "\<forall>v\<in>set ws. placed v"
    unfolding ws_def using ok v'(1) by (auto dest!: set_update_subset_insert [THEN subsetD])
  have 3: "\<forall>j<length (vehicles s0).
            id_v (ws ! j) = id_v (vehicles s0 ! j)
          \<and> direction (ws ! j) = direction (vehicles s0 ! j)
          \<and> entry_time (ws ! j) = entry_time (vehicles s0 ! j)"
  proof (intro allI impI)
    fix j assume j: "j < length (vehicles s0)"
    then have old: "id_v (vehicles s ! j) = id_v (vehicles s0 ! j)
          \<and> direction (vehicles s ! j) = direction (vehicles s0 ! j)
          \<and> entry_time (vehicles s ! j) = entry_time (vehicles s0 ! j)"
      using inv by (simp add: loop_inv_def)
    show "id_v (ws ! j) = id_v (vehicles s0 ! j)
          \<and> direction (ws ! j) = direction (vehicles s0 ! j)
          \<and> entry_time (ws ! j) = entry_time (vehicles s0 ! j)"
      using old v'(2-4) wk wj [of j] by (cases "j = k") simp_all
  qed
  have 4: "throughput st' \<le> throughput (stats s0) + int (length tr')"
  proof -
    have "throughput (stats s) \<le> throughput (stats s0) + int (length tr)"
      using inv by (simp add: loop_inv_def)
    then show ?thesis using b trb by (cases b) simp_all
  qed
  have 5: "sorted_wrt (<) tr'"
  proof -
    have "sorted_wrt (<) tr" using inv by (simp add: loop_inv_def)
    then show ?thesis using ktr trb by (cases b) (simp_all add: sorted_wrt_append)
  qed
  have 6: "\<forall>j\<in>set tr'. j < Suc k"
    using ktr trb by (cases b) (auto simp: less_Suc_eq)
  have 7: "\<forall>j<length (vehicles s0). j \<notin> set tr' \<longrightarrow> exit_time (ws ! j) = exit_time (vehicles s0 ! j)"
  proof (intro allI impI)
    fix j assume j: "j < length (vehicles s0)" "j \<notin> set tr'"
    have jtr: "j \<notin> set tr" using j(2) trb by (cases b) simp_all
    then have old: "exit_time (vehicles s ! j) = exit_time (vehicles s0 ! j)"
      using inv j(1) by (simp add: loop_inv_def)
    show "exit_time (ws ! j) = exit_time (vehicles s0 ! j)"
    proof (cases "j = k")
      case True
      then have "\<not> b" using j(2) trb by auto
      then show ?thesis using b old True wk by simp
    next
      case False
      then show ?thesis using old wj by simp
    qed
  qed
  have 8: "\<forall>j<Suc k. j \<notin> set tr' \<longrightarrow> check_exit s0 (ws ! j) = Inr False"
  proof (intro allI impI)
    fix j assume j: "j < Suc k" "j \<notin> set tr'"
    have jtr: "j \<notin> set tr" using j(2) trb by (cases b) simp_all
    show "check_exit s0 (ws ! j) = Inr False"
    proof (cases "j = k")
      case True
      then have "\<not> b" using j(2) trb by auto
      then show ?thesis using b ce True wk by simp
    next
      case False
      then have "j < k" using j(1) by simp
      then have "check_exit s0 (vehicles s ! j) = Inr False"
        using inv jtr by (simp add: loop_inv_def)
      then show ?thesis using False wj by simp
    qed
  qed
  have 9: "\<forall>j\<in>set tr'. exit_time (ws ! j) = Some (t_exit e j)"
  proof
    fix j assume j: "j \<in> set tr'"
    show "exit_time (ws ! j) = Some (t_exit e j)"
    proof (cases "j = k")
      case True
      then have "b" using j knot trb by auto
      then show ?thesis using b True wk by simp
    next
      case False
      then have "j \<in> set tr" using j trb by (cases b) simp_all
      then have "exit_time (vehicles s ! j) = Some (t_exit e j)"
        using inv by (simp add: loop_inv_def)
      then show ?thesis using False wj by simp
    qed
  qed
  have tq: "total_vehicles st' = total_vehicles (stats s0)" "queue_lengths st' = queue_lengths (stats s0)"
    "throughput (stats s0) \<le> throughput st'"
    using inv st' by (simp_all add: loop_inv_def)
  have "loop_inv e s0 (Suc k) (s\<lparr>vehicles := ws, stats := st'\<rparr>, tr')"
    unfolding loop_inv_def prod.case
    using 1 2 3 4 5 6 7 8 9 tq wl by simp
  then show ?thesis
    using u by (simp add: ws_def tr'_def)
qed

lemma update_loop_inv:
  assumes "loop_inv e s0 k acc" "k \<le> n" "n = length (vehicles s0)"
    "0 \<le> throughput (stats s0)"
  shows "\<exists>acc'. update_loop e [k..<n] acc = Inr acc' \<and> loop_inv e s0 n acc'"
  using assms
proof (induction "n - k" arbitrary: k acc)
  case 0
  then show ?case by simp
next
  case (Suc d)
  then have k: "k < n" by simp
  obtain s tr where acc: "acc = (s, tr)" by (cases acc)
  obtain acc' where a: "update_vehicle e (s, tr) k = Inr acc'" "loop_inv e s0 (Suc k) acc'"
    using loop_inv_step [of e s0 k s tr] Suc.prems k acc by auto
  have "\<exists>acc''. update_loop e [Suc k..<n] acc' = Inr acc'' \<and> loop_inv e s0 n acc''"
    using Suc.hyps(1) [of "Suc k" acc'] Suc.hyps(2) a(2) k Suc.prems by simp
  then show ?case
    using a(1) acc k by (simp add: upt_conv_Cons)
qed

lemma remove_marked_effect:
  assumes "sorted_wrt (>) ds" "\<forall>d\<in>set ds. d < length (vehicles s)"
  shows "\<exists>vs'. remove_marked ds s
           = Inr (s\<lparr>vehicles := vs',
                    removed_vehicles := removed_vehicles s @ map (nth (vehicles s)) ds\<rparr>)
     \<and> length vs' = length (vehicles s) - length ds
     \<and> set vs' \<subseteq> {vehicles s ! j | j. j < length (vehicles s) \<and> j \<notin> set ds}
     \<and> mset vs' + mset (map (nth (vehicles s)) ds) = mset (vehicles s)"
  using assms
proof (induction ds arbitrary: s)
  case Nil
  have "s = s\<lparr>vehicles := vehicles s, removed_vehicles := removed_vehicles s\<rparr>" by simp
  moreover have "set (vehicles s) \<subseteq> {vehicles s ! j | j. j < length (vehicles s)}"
    by (auto simp: in_set_conv_nth)
  ultimately show ?case
    by (intro exI [of _ "vehicles s"]) simp
next
  case (Cons i rest)
  let ?vs = "vehicles s"
  let ?vs1 = "take i ?vs @ drop (Suc i) ?vs"
  let ?s1 = "s\<lparr>removed_vehicles := removed_vehicles s @ [?vs ! i], vehicles := ?vs1\<rparr>"
  have i: "i < length ?vs" using Cons.prems by simp
  have lt: "\<forall>d\<in>set rest. d < i" using Cons.prems by simp
  have len1: "length ?vs1 = length ?vs - 1" using i by simp
  have low: "\<And>j. j < i \<Longrightarrow> ?vs1 ! j = ?vs ! j"
    using i by (simp add: nth_append)
  have high: "\<And>j. i \<le> j \<Longrightarrow> j < length ?vs1 \<Longrightarrow> ?vs1 ! j = ?vs ! Suc j"
    using i by (simp add: nth_append min_def)
  have "sorted_wrt (>) rest" "\<forall>d\<in>set rest. d < length (vehicles ?s1)"
    using Cons.prems lt i by auto
  from Cons.IH [OF this] obtain vs' where
    r: "remove_marked rest ?s1
           = Inr (?s1\<lparr>vehicles := vs',
                    removed_vehicles := removed_vehicles ?s1 @ map (nth (vehicles ?s1)) rest\<rparr>)"
    and l: "length vs' = length (vehicles ?s1) - length rest"
    and sub: "set vs' \<subseteq> {vehicles ?s1 ! j | j. j < length (vehicles ?s1) \<and> j \<notin> set rest}"
    and ms: "mset vs' + mset (map (nth (vehicles ?s1)) rest) = mset (vehicles ?s1)"
    by blast
  have maps: "map (nth ?vs1) rest = map (nth ?vs) rest"
    using lt low by simp
  have a: "remove_marked (i # rest) s
      = Inr (s\<lparr>vehicles := vs',
                    removed_vehicles := removed_vehicles s @ map (nth ?vs) (i # rest)\<rparr>)"
    using r i maps by simp
  have b: "length vs' = length ?vs - length (i # rest)"
    using l len1 by simp
  have c: "set vs' \<subseteq> {?vs ! j | j. j < length ?vs \<and> j \<notin> set (i # rest)}"
  proof
    fix w assume "w \<in> set vs'"
    then obtain j where j: "w = ?vs1 ! j" "j < length ?vs1" "j \<notin> set rest"
      using sub by auto
    show "w \<in> {?vs ! j | j. j < length ?vs \<and> j \<notin> set (i # rest)}"
    proof (cases "j < i")
      case True
      then have "w = ?vs ! j" "j < length ?vs" "j \<notin> set (i # rest)"
        using j low i by auto
      then show ?thesis by blast
    next
      case False
      then have "w = ?vs ! Suc j" "Suc j < length ?vs" "Suc j \<notin> set (i # rest)"
        using j high [of j] len1 lt by auto
      then show ?thesis by blast
    qed
  qed
  have "mset ?vs = mset ?vs1 + {#?vs ! i#}"
    using id_take_nth_drop [OF i] by (metis add_mset_add_single mset.simps(2) mset_append union_mset_add_mset_right)
  then have d: "mset vs' + mset (map (nth ?vs) (i # rest)) = mset ?vs"
    using ms maps by simp
  show ?case using a b c d by blast
qed

text \<open>
  On a vehicle the simulation keeps, the distance the code computes is the line distance.
\<close>

lemma line_distance_light:
  assumes "placed v" "get_distance_to_light s v = Inr ld"
  shows "line_distance s v = Some ld"
proof -
  obtain x y where p: "position v = Some (x, y)"
    using assms(1) by (auto simp: placed_def)
  have "direction v = ''north'' \<or> direction v = ''south'' \<or> direction v = ''east''
      \<or> direction v = ''west''"
    using assms(1) by (simp add: placed_def)
  then show ?thesis
    using assms(2) p by (auto simp: get_distance_to_light_def line_distance_def)
qed

lemma count_queues_effect:
  assumes "\<forall>v\<in>set vs. placed v"
    and "\<forall>d\<in>set [''north'', ''south'', ''east'', ''west'']. q d \<noteq> None"
  shows "\<exists>q'. count_queues s vs q = Inr q'
     \<and> (\<forall>d. q' d = map_option (\<lambda>n. n + sample_of stopped_below s vs d) (q d))"
  using assms
proof (induction vs arbitrary: q)
  case Nil
  then show ?case by (simp add: sample_of_def option.map_ident)
next
  case (Cons v rest)
  have pv: "placed v" using Cons.prems by simp
  then obtain ld where ld: "get_distance_to_light s v = Inr ld"
    using get_distance_to_light_total [of v s] by (auto simp: placed_def)
  have w: "stopped_below s v \<longleftrightarrow> ld < 30 \<and> speed v = 0"
    using line_distance_light [OF pv ld] by (simp add: stopped_below_def)
  have rest: "\<forall>v\<in>set rest. placed v" using Cons.prems by simp
  show ?case
  proof (cases "stopped_below s v")
    case True
    obtain n where n: "q (direction v) = Some n"
      using pv Cons.prems(2) by (auto simp: placed_def)
    let ?q1 = "q(direction v \<mapsto> n + 1)"
    have "\<forall>d\<in>set [''north'', ''south'', ''east'', ''west'']. ?q1 d \<noteq> None"
      using Cons.prems(2) by simp
    from Cons.IH [OF rest this] obtain q' where
      q': "count_queues s rest ?q1 = Inr q'"
        "\<forall>d. q' d = map_option (\<lambda>n. n + sample_of stopped_below s rest d) (?q1 d)"
      by blast
    have "count_queues s (v # rest) q = Inr q'"
      using ld w True n q'(1) by simp
    moreover have "\<forall>d. q' d = map_option (\<lambda>n. n + sample_of stopped_below s (v # rest) d) (q d)"
      using q'(2) True n by (auto simp: sample_of_def)
    ultimately show ?thesis by blast
  next
    case False
    from Cons.IH [OF rest Cons.prems(2)] obtain q' where
      q': "count_queues s rest q = Inr q'"
        "\<forall>d. q' d = map_option (\<lambda>n. n + sample_of stopped_below s rest d) (q d)"
      by blast
    have "count_queues s (v # rest) q = Inr q'"
      using ld w False q'(1) by auto
    moreover have "\<forall>d. q' d = map_option (\<lambda>n. n + sample_of stopped_below s (v # rest) d) (q d)"
      using q'(2) False by (simp add: sample_of_def)
    ultimately show ?thesis by blast
  qed
qed

lemma record_queue_lengths_effect:
  assumes "\<forall>v\<in>set (vehicles s). placed v"
  shows "record_queue_lengths s = Inr (s\<lparr>stats := (stats s)\<lparr>queue_lengths :=
      (\<lambda>d. if d \<in> set [''north'', ''south'', ''east'', ''west'']
           then queue_lengths (stats s) d @ [sample_of stopped_below s (vehicles s) d]
           else queue_lengths (stats s) d)\<rparr>\<rparr>)"
proof -
  let ?q0 = "[''north'' \<mapsto> 0, ''south'' \<mapsto> 0, ''east'' \<mapsto> 0, ''west'' \<mapsto> (0::int)]"
  have "\<forall>d\<in>set [''north'', ''south'', ''east'', ''west'']. ?q0 d \<noteq> None"
    by simp
  from count_queues_effect [OF assms this] obtain q' where
    q': "count_queues s (vehicles s) ?q0 = Inr q'"
      "\<forall>d. q' d = map_option (\<lambda>n. n + sample_of stopped_below s (vehicles s) d) (?q0 d)"
    by blast
  have "(\<lambda>d. case q' d of None \<Rightarrow> queue_lengths (stats s) d
                      | Some n \<Rightarrow> queue_lengths (stats s) d @ [n])
      = (\<lambda>d. if d \<in> set [''north'', ''south'', ''east'', ''west'']
           then queue_lengths (stats s) d @ [sample_of stopped_below s (vehicles s) d]
           else queue_lengths (stats s) d)"
    using q'(2) by (intro ext) simp
  then show ?thesis
    using q'(1) by (simp add: record_queue_lengths_def)
qed

lemma sim_inv_init: "sim_inv (Intersection_init rl lw sr nid)"
  by (simp add: sim_inv_def Intersection_init_def Let_def)

lemma sim_inv_lights:
  "sim_inv (s\<lparr>light_NS := a, light_EW := b\<rparr>) = sim_inv s"
  by (simp add: sim_inv_def)

lemma spawn_vehicle_effect:
  assumes "sim_inv s"
  shows "\<exists>s2. spawn_vehicle s e = Inr s2 \<and> sim_inv s2
     \<and> (\<exists>new. vehicles s2 = vehicles s @ new \<and> length new \<le> 1
            \<and> total_vehicles (stats s2) = total_vehicles (stats s) + int (length new))
     \<and> removed_vehicles s2 = removed_vehicles s
     \<and> road_length s2 = road_length s
     \<and> throughput (stats s2) = throughput (stats s)
     \<and> queue_lengths (stats s2) = queue_lengths (stats s)"
proof (cases "r_spawn e < spawn_rate s")
  case False
  then have "spawn_vehicle s e = Inr s"
    by (simp add: spawn_vehicle_def)
  then show ?thesis using assms by simp
next
  case True
  define dir where "dir = [''north'', ''south'', ''east'', ''west''] ! (k_choice e mod 4)"
  have "k_choice e mod 4 < length [''north'', ''south'', ''east'', ''west'']"
    by simp
  then have dir: "dir \<in> set [''north'', ''south'', ''east'', ''west'']"
    unfolding dir_def by (rule nth_mem)
  then have key: "(if dir = ''north'' then ''north'' else if dir = ''south'' then ''south''
                    else if dir = ''east'' then ''east'' else ''west'') = dir"
    by auto
  obtain lo hi where b: "road_boundaries s dir = Some (lo, hi)"
    using assms dir by (fastforce simp: sim_inv_def)
  define c where "c = of_int lo + (of_int hi - of_int lo) * u_uniform e"
  define start_pos where "start_pos =
                       (if dir = ''north'' then (c, 0)
                        else if dir = ''south'' then (c, of_int (road_length s))
                        else if dir = ''east'' then (0, c)
                        else (of_int (road_length s), c))"
  define v where "v = (fst (Vehicle_init (next_id s) dir 5 1 2 (t_entry e) (r_target e)))\<lparr>position := Some start_pos\<rparr>"
  define s2 where "s2 = s\<lparr>vehicles := vehicles s @ [v],
                           stats := (stats s)\<lparr>total_vehicles := total_vehicles (stats s) + 1\<rparr>,
                           next_id := next_id s + 1\<rparr>"
  have sp: "spawn_vehicle s e = Inr s2"
    using True b key
    by (simp add: spawn_vehicle_def Let_def dir_def [symmetric] c_def
        start_pos_def Vehicle_init_def v_def s2_def)
  have pv: "placed v" "exit_time v = None" "id_v v = next_id s"
    using dir by (simp_all add: placed_def v_def Vehicle_init_def)
  have old: "\<forall>w\<in>set (vehicles s @ removed_vehicles s). id_v w < next_id s"
    using assms by (simp add: sim_inv_def)
  then have fresh: "id_v v \<notin> id_v ` set (vehicles s @ removed_vehicles s)"
    using pv(3) by auto
  have "distinct (map id_v (vehicles s @ removed_vehicles s))"
    using assms by (simp add: sim_inv_def)
  then have d: "distinct (map id_v ((vehicles s @ [v]) @ removed_vehicles s))"
    using fresh by auto
  have lt: "\<forall>w\<in>set ((vehicles s @ [v]) @ removed_vehicles s). id_v w < next_id s + 1"
  proof
    fix w assume "w \<in> set ((vehicles s @ [v]) @ removed_vehicles s)"
    then consider "w = v" | "w \<in> set (vehicles s @ removed_vehicles s)"
      by auto
    then show "id_v w < next_id s + 1"
    proof cases
      case 1
      then show ?thesis using pv(3) by simp
    next
      case 2
      then have "id_v w < next_id s" using old by blast
      then show ?thesis by linarith
    qed
  qed
  have "sim_inv s2"
    unfolding sim_inv_def s2_def using assms pv(1,2) d lt
    by (simp add: sim_inv_def)
  then show ?thesis
    using sp by (simp add: s2_def)
qed

lemma line_distance_road:
  "road_length s' = road_length s \<Longrightarrow> line_distance s' v = line_distance s v"
  by (cases "position v") (auto simp: line_distance_def)

lemma stopped_below_road:
  "road_length s' = road_length s \<Longrightarrow> stopped_below s' v = stopped_below s v"
  using line_distance_road [of s' s v] by (simp add: stopped_below_def)

lemma sample_of_road:
  "road_length s' = road_length s \<Longrightarrow> sample_of stopped_below s' vs d = sample_of stopped_below s vs d"
  using stopped_below_road [of s' s] by (simp add: sample_of_def)

lemma update_effect:
  assumes "sim_inv s"
  shows "\<exists>s'. Intersection_update s k e = Inr s' \<and> sim_inv s'
     \<and> road_length s' = road_length s
     \<and> (\<forall>d. queue_lengths (stats s') d =
           (if d \<in> set [''north'', ''south'', ''east'', ''west'']
            then queue_lengths (stats s) d @ [sample_of stopped_below s' (vehicles s') d]
            else queue_lengths (stats s) d))
     \<and> (\<forall>w\<in>set (vehicles s'). check_exit s' w = Inr False)
     \<and> (\<exists>new. removed_vehicles s' = removed_vehicles s @ new
            \<and> (\<forall>w\<in>set new. \<exists>i. exit_time w = Some (t_exit e i)))
     \<and> (\<forall>v\<in>set (vehicles s). \<exists>w\<in>set (vehicles s') \<union> set (removed_vehicles s').
            id_v w = id_v v \<and> direction w = direction v \<and> entry_time w = entry_time v)"
proof -
  define s1 where "s1 = s\<lparr>light_NS := TrafficLight_update (light_NS s) k,
                 light_EW := TrafficLight_update (light_EW s) k\<rparr>"
  have inv1: "sim_inv s1"
    using assms by (simp add: s1_def sim_inv_lights)
  obtain s2 new where sp: "spawn_vehicle s1 e = Inr s2" and inv2: "sim_inv s2"
    and vs2: "vehicles s2 = vehicles s @ new"
    and rm2: "removed_vehicles s2 = removed_vehicles s"
    and rl2: "road_length s2 = road_length s"
    and ql2: "queue_lengths (stats s2) = queue_lengths (stats s)"
    using spawn_vehicle_effect [OF inv1, of e] by (auto simp: s1_def)
  define n where "n = length (vehicles s2)"
  have pl2: "\<forall>v\<in>set (vehicles s2). placed v" and ex2: "\<forall>v\<in>set (vehicles s2). exit_time v = None"
    and thr2: "0 \<le> throughput (stats s2)"
    and cnt2: "throughput (stats s2) + int n \<le> total_vehicles (stats s2)"
    and rex2: "\<forall>v\<in>set (removed_vehicles s2). placed v \<and> exit_time v \<noteq> None"
    and rb2: "\<forall>d\<in>set [''north'', ''south'', ''east'', ''west'']. road_boundaries s2 d \<noteq> None"
    and di2: "distinct (map id_v (vehicles s2 @ removed_vehicles s2))"
    and id2: "\<forall>v\<in>set (vehicles s2 @ removed_vehicles s2). id_v v < next_id s2"
    using inv2 by (simp_all add: sim_inv_def n_def)
  obtain acc where lp: "update_loop e [0..<n] (s2, []) = Inr acc" and li: "loop_inv e s2 n acc"
    using update_loop_inv [OF loop_inv_start [OF pl2, of e], of n] thr2 n_def by blast
  obtain s3 tr where acc: "acc = (s3, tr)" by (cases acc)
  obtain vs3 st3 where s3: "s3 = s2\<lparr>vehicles := vs3, stats := st3\<rparr>"
    using li acc by (auto simp: loop_inv_def)
  have len3: "length vs3 = n"
    and pl3: "\<forall>v\<in>set vs3. placed v"
    and same3: "\<forall>j<n. id_v (vs3 ! j) = id_v (vehicles s2 ! j)
          \<and> direction (vs3 ! j) = direction (vehicles s2 ! j)
          \<and> entry_time (vs3 ! j) = entry_time (vehicles s2 ! j)"
    and tot3: "total_vehicles st3 = total_vehicles (stats s2)"
    and ql3: "queue_lengths st3 = queue_lengths (stats s2)"
    and thr3: "throughput (stats s2) \<le> throughput st3"
      "throughput st3 \<le> throughput (stats s2) + int (length tr)"
    and so3: "sorted_wrt (<) tr" and lt3: "\<forall>j\<in>set tr. j < n"
    and keep3: "\<forall>j<n. j \<notin> set tr \<longrightarrow> exit_time (vs3 ! j) = exit_time (vehicles s2 ! j)"
    and in3: "\<forall>j<n. j \<notin> set tr \<longrightarrow> check_exit s2 (vs3 ! j) = Inr False"
    and out3: "\<forall>j\<in>set tr. exit_time (vs3 ! j) = Some (t_exit e j)"
    using li unfolding acc s3 loop_inv_def n_def by simp_all
  have "sorted tr"
    using so3 by (rule sorted_wrt_mono_rel [rotated]) simp
  then have sort: "sort tr = tr"
    by (rule sorted_sort_id)
  have desc: "sorted_wrt (>) (rev tr)"
    using so3 by (simp add: sorted_wrt_rev)
  have "\<forall>d\<in>set (rev tr). d < length (vehicles s3)"
    using lt3 len3 s3 by simp
  from remove_marked_effect [OF desc this] obtain vs4 where
    rm: "remove_marked (rev tr) s3
           = Inr (s3\<lparr>vehicles := vs4,
                    removed_vehicles := removed_vehicles s3 @ map (nth (vehicles s3)) (rev tr)\<rparr>)"
    and len4: "length vs4 = length (vehicles s3) - length (rev tr)"
    and sub4: "set vs4 \<subseteq> {vehicles s3 ! j | j. j < length (vehicles s3) \<and> j \<notin> set (rev tr)}"
    and ms4: "mset vs4 + mset (map (nth (vehicles s3)) (rev tr)) = mset (vehicles s3)"
    by blast
  define gone where "gone = map (nth vs3) (rev tr)"
  define s4 where "s4 = s2\<lparr>vehicles := vs4, removed_vehicles := removed_vehicles s @ gone, stats := st3\<rparr>"
  have rm': "remove_marked (rev tr) s3 = Inr s4"
    using rm by (simp add: s3 s4_def gone_def rm2)
  have sub4': "\<forall>w\<in>set vs4. \<exists>j<n. j \<notin> set tr \<and> w = vs3 ! j"
    using sub4 len3 by (auto simp: s3)
  have ms4': "mset vs4 + mset gone = mset vs3"
    using ms4 by (simp add: s3 gone_def)
  have pl4: "\<forall>v\<in>set (vehicles s4). placed v"
    using sub4' pl3 len3 by (auto simp: s4_def)
  define s' where "s' = s4\<lparr>stats := (stats s4)\<lparr>queue_lengths :=
      (\<lambda>d. if d \<in> set [''north'', ''south'', ''east'', ''west'']
           then queue_lengths (stats s4) d @ [sample_of stopped_below s4 (vehicles s4) d]
           else queue_lengths (stats s4) d)\<rparr>\<rparr>"
  have rq: "record_queue_lengths s4 = Inr s'"
    using record_queue_lengths_effect [OF pl4] by (simp add: s'_def)
  have upd: "Intersection_update s k e = Inr s'"
    using sp lp [unfolded n_def acc] sort rm' rq
    by (simp add: Intersection_update_def Let_def s1_def)
  have rl': "road_length s' = road_length s" "road_length s' = road_length s4"
    using rl2 by (simp_all add: s'_def s4_def)
  have veh': "vehicles s' = vs4" and rem': "removed_vehicles s' = removed_vehicles s @ gone"
    by (simp_all add: s'_def s4_def)
  have q: "\<forall>d. queue_lengths (stats s') d =
           (if d \<in> set [''north'', ''south'', ''east'', ''west'']
            then queue_lengths (stats s) d @ [sample_of stopped_below s' (vehicles s') d]
            else queue_lengths (stats s) d)"
  proof
    fix d
    have "sample_of stopped_below s' vs4 d = sample_of stopped_below s4 vs4 d"
      using sample_of_road [OF rl'(2)] by simp
    then show "queue_lengths (stats s') d =
           (if d \<in> set [''north'', ''south'', ''east'', ''west'']
            then queue_lengths (stats s) d @ [sample_of stopped_below s' (vehicles s') d]
            else queue_lengths (stats s) d)"
      using ql3 ql2 veh' by (simp add: s'_def s4_def)
  qed
  have stay: "\<forall>w\<in>set (vehicles s'). check_exit s' w = Inr False"
  proof
    fix w assume "w \<in> set (vehicles s')"
    then obtain j where "j < n" "j \<notin> set tr" "w = vs3 ! j"
      using sub4' veh' by auto
    then have "check_exit s2 w = Inr False" using in3 by simp
    moreover have "road_length s' = road_length s2" using rl2 rl'(1) by simp
    ultimately show "check_exit s' w = Inr False"
      using check_exit_road [of s' s2 w] by simp
  qed
  have gone_set: "\<forall>w\<in>set gone. \<exists>j\<in>set tr. w = vs3 ! j"
    by (auto simp: gone_def)
  have left: "\<forall>w\<in>set gone. \<exists>i. exit_time w = Some (t_exit e i)"
    using gone_set out3 by fastforce
  have carried: "\<forall>v\<in>set (vehicles s). \<exists>w\<in>set (vehicles s') \<union> set (removed_vehicles s').
            id_v w = id_v v \<and> direction w = direction v \<and> entry_time w = entry_time v"
  proof
    fix v assume "v \<in> set (vehicles s)"
    then have "v \<in> set (vehicles s2)" using vs2 by simp
    then obtain j where j: "j < n" "v = vehicles s2 ! j"
      by (auto simp: in_set_conv_nth n_def)
    have "vs3 ! j \<in> set vs3" using j(1) len3 by simp
    then have "vs3 ! j \<in># mset vs4 + mset gone" using ms4' by simp
    then have "vs3 ! j \<in> set (vehicles s') \<union> set (removed_vehicles s')"
      using veh' rem' by auto
    then show "\<exists>w\<in>set (vehicles s') \<union> set (removed_vehicles s').
            id_v w = id_v v \<and> direction w = direction v \<and> entry_time w = entry_time v"
      using same3 j by blast
  qed
  have ids3: "map id_v vs3 = map id_v (vehicles s2)"
    using same3 len3 by (intro nth_equalityI) (simp_all add: n_def)
  have msid: "mset (map id_v (vehicles s' @ removed_vehicles s'))
      = mset (map id_v (vehicles s2 @ removed_vehicles s2))"
  proof -
    have "mset (map id_v (vs4 @ removed_vehicles s @ gone))
       = image_mset id_v (mset vs4 + mset gone) + image_mset id_v (mset (removed_vehicles s))"
      by simp
    also have "\<dots> = mset (map id_v vs3) + mset (map id_v (removed_vehicles s))"
      using ms4' by simp
    finally show ?thesis
      using ids3 veh' rem' rm2 by simp
  qed
  have i1: "\<forall>v\<in>set (vehicles s'). placed v \<and> exit_time v = None"
  proof
    fix w assume "w \<in> set (vehicles s')"
    then obtain j where j: "j < n" "j \<notin> set tr" "w = vs3 ! j"
      using sub4' veh' by auto
    have "vehicles s2 ! j \<in> set (vehicles s2)" using j(1) by (simp add: n_def)
    then have "exit_time (vehicles s2 ! j) = None" using ex2 by blast
    then have "exit_time w = None" using keep3 j by simp
    moreover have "placed w" using pl3 j len3 by simp
    ultimately show "placed w \<and> exit_time w = None" by simp
  qed
  have "\<forall>w\<in>set gone. placed w"
    using gone_set pl3 lt3 len3 by auto
  then have i2: "\<forall>v\<in>set (removed_vehicles s'). placed v \<and> exit_time v \<noteq> None"
    using rex2 rm2 left rem' by auto
  have i3: "0 \<le> throughput (stats s')"
    using thr2 thr3 by (simp add: s'_def s4_def)
  have "length vs4 + length gone = n"
    using ms4' len3 by (metis length_append mset_append size_mset)
  then have "int (length vs4) + int (length tr) = int n"
    by (simp add: gone_def)
  then have i4: "throughput (stats s') + int (length (vehicles s')) \<le> total_vehicles (stats s')"
    using cnt2 thr3 tot3 by (simp add: s'_def s4_def)
  have i5: "\<forall>d\<in>set [''north'', ''south'', ''east'', ''west'']. road_boundaries s' d \<noteq> None"
    using rb2 by (simp add: s'_def s4_def)
  have i6: "distinct (map id_v (vehicles s' @ removed_vehicles s'))"
    using msid di2 by (metis mset_eq_imp_distinct_iff)
  have "set (map id_v (vehicles s' @ removed_vehicles s'))
      = set (map id_v (vehicles s2 @ removed_vehicles s2))"
    using msid by (rule mset_eq_setD)
  moreover have "next_id s' = next_id s2"
    by (simp add: s'_def s4_def)
  ultimately have i7: "\<forall>v\<in>set (vehicles s' @ removed_vehicles s'). id_v v < next_id s'"
    using id2 by (metis (no_types, lifting) image_eqI image_iff list.set_map)
  have inv': "sim_inv s'"
    unfolding sim_inv_def using i1 i2 i3 i4 i5 i6 i7 by blast
  show ?thesis
    using upd inv' rl'(1) q stay left rem' carried by blast
qed

section \<open>Runs\<close>

text \<open>The definitions a concrete step unfolds.\<close>

lemmas step_defs = Intersection_update_def spawn_vehicle_def Vehicle_init_def update_vehicle_def
  get_light_state_def get_state_def get_distance_to_light_def get_front_vehicle_distance_def
  update_speed_def accelerated_def car_following_def light_braking_def random_slowdown_def
  move_def check_collision_def check_exit_def record_exit_def record_queue_lengths_def
  TrafficLight_update_def Intersection_init_def TrafficLight_init_60 Let_def
  get_target_direction_def env_spawn_def env_quiet_def env_slow_def small_sim_def

text \<open>The collision threshold without the square root.\<close>

lemma sqrt_less_2 [simp]: "sqrt x < 2 \<longleftrightarrow> x < 4"
proof -
  have "sqrt x < sqrt 4 \<longleftrightarrow> x < 4" by (rule real_sqrt_less_iff)
  then show ?thesis by simp
qed

lemma small_run3:
  "\<exists>s'. run small_sim 0 [env_spawn, env_quiet, env_quiet] = Inr s'
     \<and> vehicles s' = [] \<and> throughput (stats s') = 1 \<and> total_vehicles (stats s') = 1
     \<and> map exit_time (removed_vehicles s') = [Some 12]
     \<and> map position (removed_vehicles s') = [Some (2, 6)]
     \<and> map speed (removed_vehicles s') = [3]
     \<and> map max_speed (removed_vehicles s') = [5]"
  by (simp add: step_defs)

lemma small_slow:
  "\<exists>s'. Intersection_update small_sim 0 env_slow = Inr s'
     \<and> map position (vehicles s') = [Some (2, 0)] \<and> map speed (vehicles s') = [0]
     \<and> queue_lengths (stats s') ''north'' = [1]
     \<and> queue_lengths (stats s') ''south'' = [0]
     \<and> queue_lengths (stats s') ''east'' = [0]
     \<and> queue_lengths (stats s') ''west'' = [0]"
  by (simp add: step_defs)

lemma two_cars_inv: "sim_inv two_cars"
  by (simp add: sim_inv_def two_cars_def placed_def default_vehicle_def Vehicle_init_def
      Intersection_init_def Let_def)

lemma two_cars_step:
  "\<exists>s'. Intersection_update two_cars 0 env_quiet = Inr s'
     \<and> map id_v (vehicles s') = [0] \<and> map position (vehicles s') = [Some (100, 195)]
     \<and> map id_v (removed_vehicles s') = [1]
     \<and> map position (removed_vehicles s') = [Some (100, 203)]
     \<and> map exit_time (removed_vehicles s') = [Some 12]
     \<and> throughput (stats s') = 1"
  by (simp add: step_defs two_cars_def default_vehicle_def)

text \<open>
  A step from a state that satisfies the invariant returns, and its result satisfies the
  invariant again; so every reachable state does.
\<close>

lemma update_total:
  assumes "sim_inv s"
  shows "\<exists>s'. Intersection_update s k e = Inr s'"
proof -
  from update_effect [OF assms, of k e] obtain t
    where "Intersection_update s k e = Inr t \<and> sim_inv t
     \<and> road_length t = road_length s
     \<and> (\<forall>d. queue_lengths (stats t) d =
           (if d \<in> set [''north'', ''south'', ''east'', ''west'']
            then queue_lengths (stats s) d @ [sample_of stopped_below t (vehicles t) d]
            else queue_lengths (stats s) d))
     \<and> (\<forall>w\<in>set (vehicles t). check_exit t w = Inr False)
     \<and> (\<exists>new. removed_vehicles t = removed_vehicles s @ new
            \<and> (\<forall>w\<in>set new. \<exists>i. exit_time w = Some (t_exit e i)))
     \<and> (\<forall>v\<in>set (vehicles s). \<exists>w\<in>set (vehicles t) \<union> set (removed_vehicles t).
            id_v w = id_v v \<and> direction w = direction v \<and> entry_time w = entry_time v)"
    by (rule exE)
  then have "Intersection_update s k e = Inr t"
    by (rule conjunct1)
  then show ?thesis ..
qed

lemma update_facts:
  assumes "sim_inv s" and "Intersection_update s k e = Inr s'"
  shows "sim_inv s'"
    and "road_length s' = road_length s"
    and "\<forall>d. queue_lengths (stats s') d =
           (if d \<in> set [''north'', ''south'', ''east'', ''west'']
            then queue_lengths (stats s) d @ [sample_of stopped_below s' (vehicles s') d]
            else queue_lengths (stats s) d)"
    and "\<forall>w\<in>set (vehicles s'). check_exit s' w = Inr False"
    and "\<exists>new. removed_vehicles s' = removed_vehicles s @ new
            \<and> (\<forall>w\<in>set new. \<exists>i. exit_time w = Some (t_exit e i))"
    and "\<forall>v\<in>set (vehicles s). \<exists>w\<in>set (vehicles s') \<union> set (removed_vehicles s').
            id_v w = id_v v \<and> direction w = direction v \<and> entry_time w = entry_time v"
proof -
  from update_effect [OF assms(1), of k e] obtain t
    where all: "Intersection_update s k e = Inr t \<and> sim_inv t
     \<and> road_length t = road_length s
     \<and> (\<forall>d. queue_lengths (stats t) d =
           (if d \<in> set [''north'', ''south'', ''east'', ''west'']
            then queue_lengths (stats s) d @ [sample_of stopped_below t (vehicles t) d]
            else queue_lengths (stats s) d))
     \<and> (\<forall>w\<in>set (vehicles t). check_exit t w = Inr False)
     \<and> (\<exists>new. removed_vehicles t = removed_vehicles s @ new
            \<and> (\<forall>w\<in>set new. \<exists>i. exit_time w = Some (t_exit e i)))
     \<and> (\<forall>v\<in>set (vehicles s). \<exists>w\<in>set (vehicles t) \<union> set (removed_vehicles t).
            id_v w = id_v v \<and> direction w = direction v \<and> entry_time w = entry_time v)"
    by (rule exE)
  have "Intersection_update s k e = Inr t"
    using all by (rule conjunct1)
  then have eq: "t = s'"
    using assms(2) by simp
  note rest = all [THEN conjunct2, unfolded eq]
  show "sim_inv s'"
    using rest by (rule conjunct1)
  note rest = rest [THEN conjunct2]
  show "road_length s' = road_length s"
    using rest by (rule conjunct1)
  note rest = rest [THEN conjunct2]
  show "\<forall>d. queue_lengths (stats s') d =
           (if d \<in> set [''north'', ''south'', ''east'', ''west'']
            then queue_lengths (stats s) d @ [sample_of stopped_below s' (vehicles s') d]
            else queue_lengths (stats s) d)"
    using rest by (rule conjunct1)
  note rest = rest [THEN conjunct2]
  show "\<forall>w\<in>set (vehicles s'). check_exit s' w = Inr False"
    using rest by (rule conjunct1)
  note rest = rest [THEN conjunct2]
  show "\<exists>new. removed_vehicles s' = removed_vehicles s @ new
            \<and> (\<forall>w\<in>set new. \<exists>i. exit_time w = Some (t_exit e i))"
    using rest by (rule conjunct1)
  show "\<forall>v\<in>set (vehicles s). \<exists>w\<in>set (vehicles s') \<union> set (removed_vehicles s').
            id_v w = id_v v \<and> direction w = direction v \<and> entry_time w = entry_time v"
    using rest by (rule conjunct2)
qed

lemma reachable_sim_inv: "reachable s \<Longrightarrow> sim_inv s"
proof (induction rule: reachable.induct)
  case (init rl lw sr nid)
  show ?case by (rule sim_inv_init)
next
  case (step s k e s')
  show ?case
    using step.IH step.hyps(2) by (rule update_facts(1))
qed

lemma reachable_run:
  "reachable s \<Longrightarrow> run s k es = Inr s' \<Longrightarrow> reachable s'"
proof (induction es arbitrary: s k)
  case Nil
  then show ?case by simp
next
  case (Cons e es)
  then obtain s1 where s1: "Intersection_update s k e = Inr s1" "run s1 (k + 1) es = Inr s'"
    by (auto split: sum.splits)
  have "reachable s1"
    using Cons.prems(1) s1(1) by (rule reachable.step)
  then show ?case
    using Cons.IH s1(2) by blast
qed

lemma check_exit_north:
  assumes "check_exit s w = Inr False" "direction w = ''north''"
  shows "\<exists>x y. position w = Some (x, y) \<and> y \<le> of_int (road_length s)"
  using assms by (auto simp: check_exit_def split: option.splits if_splits)

lemma reachable_bound:
  assumes "reachable s"
  shows "throughput (stats s) \<le> total_vehicles (stats s)"
proof -
  have "throughput (stats s) + int (length (vehicles s)) \<le> total_vehicles (stats s)"
    using reachable_sim_inv [OF assms] by (simp add: sim_inv_def)
  then show ?thesis by simp
qed

text \<open>
  C5. In every reachable state of the simulation the throughput counter is at most the
  number of vehicles spawned; and from a reachable state every call of \<open>update\<close>, for
  any step number and any random draws and clock readings, returns a state, reachable
  again, in which the inequality holds.
\<close>

theorem throughput_bound:
  assumes "reachable s"
  shows "throughput (stats s) \<le> total_vehicles (stats s)
     \<and> (\<exists>s'. Intersection_update s k e = Inr s' \<and> reachable s'
            \<and> throughput (stats s') \<le> total_vehicles (stats s'))"
proof -
  obtain s' where s': "Intersection_update s k e = Inr s'"
    using update_total [OF reachable_sim_inv [OF assms], of k e] ..
  have r: "reachable s'"
    using assms s' by (rule reachable.step)
  have "Intersection_update s k e = Inr s' \<and> reachable s'
            \<and> throughput (stats s') \<le> total_vehicles (stats s')"
    using s' r reachable_bound [OF r] by simp
  then have "\<exists>s'. Intersection_update s k e = Inr s' \<and> reachable s'
            \<and> throughput (stats s') \<le> total_vehicles (stats s')" ..
  then show ?thesis
    using reachable_bound [OF assms] by simp
qed

theorem throughput_bound_witness:
  "\<exists>s. run small_sim 0 [env_spawn, env_quiet, env_quiet] = Inr s \<and> reachable s
     \<and> throughput (stats s) = 1 \<and> total_vehicles (stats s) = 1
     \<and> throughput (stats s) \<le> total_vehicles (stats s)"
proof -
  from small_run3 obtain s where s: "run small_sim 0 [env_spawn, env_quiet, env_quiet] = Inr s
     \<and> vehicles s = [] \<and> throughput (stats s) = 1 \<and> total_vehicles (stats s) = 1
     \<and> map exit_time (removed_vehicles s) = [Some 12]
     \<and> map position (removed_vehicles s) = [Some (2, 6)]
     \<and> map speed (removed_vehicles s) = [3]
     \<and> map max_speed (removed_vehicles s) = [5]"
    by (rule exE)
  have "reachable small_sim"
    unfolding small_sim_def by (rule reachable.init)
  then have r: "reachable s"
    using s [THEN conjunct1] by (rule reachable_run)
  have "throughput (stats s) \<le> total_vehicles (stats s)"
    using throughput_bound [OF r, of 0 env_quiet] by (rule conjunct1)
  then have "run small_sim 0 [env_spawn, env_quiet, env_quiet] = Inr s \<and> reachable s
     \<and> throughput (stats s) = 1 \<and> total_vehicles (stats s) = 1
     \<and> throughput (stats s) \<le> total_vehicles (stats s)"
    using s r by simp
  then show ?thesis ..
qed

text \<open>
  C7. For a state that satisfies the invariant of a run (every reachable state does) and
  a call of \<open>update\<close> that returns \<open>s'\<close>: afterwards no active vehicle carries an
  exit time, and every active north-bound vehicle has a \<open>y\<close> of at most the road
  length, so a north-bound vehicle whose \<open>y\<close> exceeds the road length after its move is
  no longer active; the removed list is the old one followed by the vehicles removed in
  this call, each carrying an exit time read during this call; every vehicle active
  before the call is, by its identifier, direction and entry time, among the active or
  the removed vehicles afterwards; and identifiers stay unique across both lists.
\<close>

theorem exit_same_step:
  assumes "sim_inv s" and "Intersection_update s k e = Inr s'"
  shows "(\<forall>w\<in>set (vehicles s'). exit_time w = None
            \<and> (direction w = ''north'' \<longrightarrow>
                 (\<exists>x y. position w = Some (x, y) \<and> y \<le> of_int (road_length s))))
     \<and> (\<exists>new. removed_vehicles s' = removed_vehicles s @ new
            \<and> (\<forall>w\<in>set new. \<exists>i. exit_time w = Some (t_exit e i)))
     \<and> (\<forall>v\<in>set (vehicles s). \<exists>w\<in>set (vehicles s') \<union> set (removed_vehicles s').
            id_v w = id_v v \<and> direction w = direction v \<and> entry_time w = entry_time v)
     \<and> distinct (map id_v (vehicles s' @ removed_vehicles s'))"
proof -
  note f = update_facts [OF assms]
  have a: "\<forall>w\<in>set (vehicles s'). exit_time w = None
            \<and> (direction w = ''north'' \<longrightarrow>
                 (\<exists>x y. position w = Some (x, y) \<and> y \<le> of_int (road_length s)))"
  proof
    fix w assume w: "w \<in> set (vehicles s')"
    then have x: "exit_time w = None"
      using f(1) by (simp add: sim_inv_def)
    have c: "check_exit s' w = Inr False"
      using f(4) w by (rule bspec)
    have "direction w = ''north'' \<longrightarrow>
                 (\<exists>x y. position w = Some (x, y) \<and> y \<le> of_int (road_length s))"
      using check_exit_north [OF c] f(2) by simp
    then show "exit_time w = None
            \<and> (direction w = ''north'' \<longrightarrow>
                 (\<exists>x y. position w = Some (x, y) \<and> y \<le> of_int (road_length s)))"
      using x by (rule conjI [rotated])
  qed
  have d: "distinct (map id_v (vehicles s' @ removed_vehicles s'))"
    using f(1) by (simp add: sim_inv_def)
  show ?thesis
    by (intro conjI a f(5) f(6) d)
qed

theorem exit_same_step_witness:
  "sim_inv two_cars \<and> road_length two_cars = 200
   \<and> map position (vehicles two_cars) = [Some (100, 190), Some (100, 198)]
   \<and> (\<exists>s'. Intersection_update two_cars 0 env_quiet = Inr s'
         \<and> map id_v (vehicles s') = [0] \<and> map position (vehicles s') = [Some (100, 195)]
         \<and> map id_v (removed_vehicles s') = [1]
         \<and> map position (removed_vehicles s') = [Some (100, 203)]
         \<and> map exit_time (removed_vehicles s') = [Some 12]
         \<and> throughput (stats s') = 1
         \<and> distinct (map id_v (vehicles s' @ removed_vehicles s')))"
proof -
  from two_cars_step obtain s' where s': "Intersection_update two_cars 0 env_quiet = Inr s'
     \<and> map id_v (vehicles s') = [0] \<and> map position (vehicles s') = [Some (100, 195)]
     \<and> map id_v (removed_vehicles s') = [1]
     \<and> map position (removed_vehicles s') = [Some (100, 203)]
     \<and> map exit_time (removed_vehicles s') = [Some 12]
     \<and> throughput (stats s') = 1"
    by (rule exE)
  note e = exit_same_step [OF two_cars_inv s' [THEN conjunct1]]
  have "distinct (map id_v (vehicles s' @ removed_vehicles s'))"
    using e [THEN conjunct2, THEN conjunct2, THEN conjunct2] .
  then have "Intersection_update two_cars 0 env_quiet = Inr s'
         \<and> map id_v (vehicles s') = [0] \<and> map position (vehicles s') = [Some (100, 195)]
         \<and> map id_v (removed_vehicles s') = [1]
         \<and> map position (removed_vehicles s') = [Some (100, 203)]
         \<and> map exit_time (removed_vehicles s') = [Some 12]
         \<and> throughput (stats s') = 1
         \<and> distinct (map id_v (vehicles s' @ removed_vehicles s'))"
    using s' by simp
  then have "\<exists>s'. Intersection_update two_cars 0 env_quiet = Inr s'
         \<and> map id_v (vehicles s') = [0] \<and> map position (vehicles s') = [Some (100, 195)]
         \<and> map id_v (removed_vehicles s') = [1]
         \<and> map position (removed_vehicles s') = [Some (100, 203)]
         \<and> map exit_time (removed_vehicles s') = [Some 12]
         \<and> throughput (stats s') = 1
         \<and> distinct (map id_v (vehicles s' @ removed_vehicles s'))" ..
  moreover have "road_length two_cars = 200"
    "map position (vehicles two_cars) = [Some (100, 190), Some (100, 198)]"
    by (simp_all add: two_cars_def Intersection_init_def Let_def default_vehicle_def)
  ultimately show ?thesis
    using two_cars_inv by simp
qed

section \<open>The queue samples\<close>






















section \<open>Speed bounds\<close>

lemma reachable_speeds:
  assumes "reachable s"
  shows "\<forall>w\<in>set (vehicles s @ removed_vehicles s). 0 \<le> speed w \<and> speed w \<le> max_speed w"
proof
  fix w assume "w \<in> set (vehicles s @ removed_vehicles s)"
  then have "placed w"
    using reachable_sim_inv [OF assms] by (auto simp: sim_inv_def)
  then show "0 \<le> speed w \<and> speed w \<le> max_speed w"
    by (simp add: placed_def)
qed

text \<open>
  C1. For a vehicle with positive maximal speed, acceleration and deceleration whose
  speed lies between 0 and the maximal speed: \<open>update_speed\<close> returns, for any front
  distance, light state, light distance and random draw, a vehicle with the same maximal
  speed whose speed again lies between 0 and the maximal speed; and \<open>move\<close> leaves the
  speed and the maximal speed as they are. Along a run: in every reachable state of the
  simulation every vehicle, active or removed, has a speed between 0 and its maximal
  speed.
\<close>

theorem speed_bounds:
  assumes "0 < max_speed v" "0 < acceleration v" "0 < deceleration v"
    and "0 \<le> speed v" "speed v \<le> max_speed v"
  shows "(\<exists>v'. update_speed v front_dist light_state light_dist r = Inr v'
            \<and> max_speed v' = max_speed v \<and> 0 \<le> speed v' \<and> speed v' \<le> max_speed v')
       \<and> max_speed (move v now) = max_speed v
       \<and> 0 \<le> speed (move v now) \<and> speed (move v now) \<le> max_speed (move v now)
       \<and> (reachable s \<longrightarrow>
            (\<forall>w\<in>set (vehicles s @ removed_vehicles s). 0 \<le> speed w \<and> speed w \<le> max_speed w))"
proof -
  let ?a = "accelerated v"
  let ?c = "car_following ?a (max 2 (?a * (3 / 2))) front_dist"
  have a: "0 \<le> ?a" "?a \<le> max_speed v"
    using accelerated_bounds assms by auto
  obtain x where x: "update_speed v front_dist light_state light_dist r = Inr (v\<lparr>speed := x\<rparr>)"
    "x \<le> max 0 ?c" "0 \<le> ?a \<longrightarrow> 0 \<le> x"
    using update_speed_range [OF assms(3)] by blast
  have "?c \<le> max 0 ?a"
    using car_following_range by blast
  then have "x \<le> max_speed v" "0 \<le> x"
    using x(2,3) a by auto
  then have u: "\<exists>v'. update_speed v front_dist light_state light_dist r = Inr v'
            \<and> max_speed v' = max_speed v \<and> 0 \<le> speed v' \<and> speed v' \<le> max_speed v'"
    using x(1) by simp
  have m: "max_speed (move v now) = max_speed v
       \<and> 0 \<le> speed (move v now) \<and> speed (move v now) \<le> max_speed (move v now)"
    using move_speed [of v now] assms by simp
  have r: "reachable s \<longrightarrow>
            (\<forall>w\<in>set (vehicles s @ removed_vehicles s). 0 \<le> speed w \<and> speed w \<le> max_speed w)"
    using reachable_speeds by (rule impI)
  show ?thesis
    using u m r by (intro conjI) simp_all
qed

theorem speed_bounds_witness:
  "0 < max_speed (default_vehicle\<lparr>speed := 4\<rparr>)
   \<and> 0 < acceleration (default_vehicle\<lparr>speed := 4\<rparr>)
   \<and> 0 < deceleration (default_vehicle\<lparr>speed := 4\<rparr>)
   \<and> max_speed (default_vehicle\<lparr>speed := 4\<rparr>) = 5
   \<and> update_speed (default_vehicle\<lparr>speed := 4\<rparr>) (Some 3) ''red'' 2 0
       = Inr (default_vehicle\<lparr>speed := 1\<rparr>)
   \<and> speed (move (default_vehicle\<lparr>speed := 4\<rparr>) 7) = 4
   \<and> (\<exists>s. run small_sim 0 [env_spawn, env_quiet, env_quiet] = Inr s \<and> reachable s
          \<and> map speed (removed_vehicles s) = [3] \<and> map max_speed (removed_vehicles s) = [5]
          \<and> (\<forall>w\<in>set (vehicles s @ removed_vehicles s).
                0 \<le> speed w \<and> speed w \<le> max_speed w))"
proof -
  let ?v = "default_vehicle\<lparr>speed := 4\<rparr>"
  have h: "0 < max_speed ?v" "0 < acceleration ?v" "0 < deceleration ?v"
    "0 \<le> speed ?v" "speed ?v \<le> max_speed ?v"
    by (simp_all add: default_vehicle_def Vehicle_init_def)
  from small_run3 obtain s where s: "run small_sim 0 [env_spawn, env_quiet, env_quiet] = Inr s
     \<and> vehicles s = [] \<and> throughput (stats s) = 1 \<and> total_vehicles (stats s) = 1
     \<and> map exit_time (removed_vehicles s) = [Some 12]
     \<and> map position (removed_vehicles s) = [Some (2, 6)]
     \<and> map speed (removed_vehicles s) = [3]
     \<and> map max_speed (removed_vehicles s) = [5]"
    by (rule exE)
  have "reachable small_sim"
    unfolding small_sim_def by (rule reachable.init)
  then have r: "reachable s"
    using s [THEN conjunct1] by (rule reachable_run)
  note b = speed_bounds [OF h, of "Some 3" "''red''" 2 0 7 s]
  have "\<forall>w\<in>set (vehicles s @ removed_vehicles s). 0 \<le> speed w \<and> speed w \<le> max_speed w"
    using b [THEN conjunct2, THEN conjunct2, THEN conjunct2, THEN conjunct2] r by (rule mp)
  then have "run small_sim 0 [env_spawn, env_quiet, env_quiet] = Inr s \<and> reachable s
          \<and> map speed (removed_vehicles s) = [3] \<and> map max_speed (removed_vehicles s) = [5]
          \<and> (\<forall>w\<in>set (vehicles s @ removed_vehicles s).
                0 \<le> speed w \<and> speed w \<le> max_speed w)"
    using s r by simp
  then have e: "\<exists>s. run small_sim 0 [env_spawn, env_quiet, env_quiet] = Inr s \<and> reachable s
          \<and> map speed (removed_vehicles s) = [3] \<and> map max_speed (removed_vehicles s) = [5]
          \<and> (\<forall>w\<in>set (vehicles s @ removed_vehicles s).
                0 \<le> speed w \<and> speed w \<le> max_speed w)" ..
  have u: "update_speed ?v (Some 3) ''red'' 2 0 = Inr (default_vehicle\<lparr>speed := 1\<rparr>)"
    by (simp add: default_vehicle_def Vehicle_init_def update_speed_def accelerated_def
        car_following_def light_braking_def random_slowdown_def Let_def power2_eq_square)
  have m: "speed (move ?v 7) = 4"
    by (simp add: default_vehicle_def Vehicle_init_def move_def)
  have "max_speed ?v = 5"
    by (simp add: default_vehicle_def Vehicle_init_def)
  then show ?thesis
    using h u m e by (intro conjI) simp_all
qed

section \<open>The constructor\<close>

text \<open>
  Against C10 as stated: the constructor takes the road length, the lane width and the
  spawn rate (and, here, the current value of the vehicle counter); no choice of them
  yields a north-south signal with cycle 90.
\<close>

theorem constructor_signals_counterexample:
  "\<not> (\<exists>rl lw sr nid. cycle (light_NS (Intersection_init rl lw sr nid)) = 90)"
  by (simp add: Intersection_init_def Let_def TrafficLight_init_60)

text \<open>
  C10, amended. The constructor accepts the road length, the lane width and the spawn
  rate and stores them; the two signals it creates are always those of cycle 60 and green
  ratio 0.5 (durations 30, 3 and 27, timer 0), the north-south one green and the
  east-west one red.
\<close>

theorem constructor_signals:
  "road_length (Intersection_init rl lw sr nid) = rl
   \<and> lane_width (Intersection_init rl lw sr nid) = lw
   \<and> spawn_rate (Intersection_init rl lw sr nid) = sr
   \<and> light_NS (Intersection_init rl lw sr nid) = TrafficLight_init 60 (1 / 2)
   \<and> light_EW (Intersection_init rl lw sr nid) = (TrafficLight_init 60 (1 / 2))\<lparr>state := ''red''\<rparr>
   \<and> TrafficLight_init 60 (1 / 2) =
       \<lparr>cycle = 60, green_duration = 30, yellow_duration = 3, red_duration = 27,
        state = ''green'', timer = 0\<rparr>"
  by (simp add: Intersection_init_def Let_def TrafficLight_init_60)

end
